theory Spec2Isabelle
  imports
    Main
    "HOL-Library.Finite_Map"
    "HOL-Library.Word"
    "HOL-Library.List_Lexorder"
    "HOL-Library.Char_ord"
begin

section \<open>memoryfs: an in-memory directory tree\<close>

text \<open>
  A shallow embedding of the Go package \<^verbatim>\<open>memoryfs\<close>: the recursive directory node
  (\<^verbatim>\<open>type dir\<close>) with its methods \<^verbatim>\<open>Open\<close>, \<^verbatim>\<open>getFile\<close>, \<^verbatim>\<open>getDir\<close>, \<^verbatim>\<open>ReadDir\<close>,
  \<^verbatim>\<open>Read\<close>, \<^verbatim>\<open>Close\<close>, \<^verbatim>\<open>MkdirAll\<close> and \<^verbatim>\<open>WriteFile\<close>, and the root handle \<^verbatim>\<open>FS\<close>
  that forwards to it.

  Go maps are finite maps with unique keys: \<open>(string, 'v) fmap\<close>.  A Go string is a byte
  sequence: \<open>string\<close> (a \<open>char list\<close>) ordered bytewise and lexicographically, which is
  Go's \<^verbatim>\<open><\<close> on strings.  Mutation through the pointer receiver is explicit state
  passing: a mutating method returns the node it leaves behind.  \<^verbatim>\<open>time.Now()\<close> reads
  a clock: the clock is a function from the number of readings taken so far to the
  reading, and the number of readings is threaded through the mutating methods.
\<close>

subsection \<open>Data model\<close>

type_synonym byte = "8 word"
type_synonym time = nat
type_synonym clock = "nat \<Rightarrow> time"
type_synonym FileMode = "32 word"

text \<open>
  Go errors.  \<open>ErrNotExist\<close> and \<open>ErrExist\<close> are the sentinels of \<^verbatim>\<open>io/fs\<close>, \<open>EOF\<close> the one
  of \<^verbatim>\<open>io\<close>.  \<open>Errorf msg w\<close> is the value of \<^verbatim>\<open>fmt.Errorf\<close>: its message and, when the
  format has a \<^verbatim>\<open>%w\<close> verb, the error it wraps.  \<open>NilReader\<close> stands for the nil-pointer
  panic of reading a file record whose reader was never set.
\<close>

datatype error = ErrNotExist | ErrExist | EOF | NilReader | Errorf string "error option"

text \<open>\<^verbatim>\<open>os.IsNotExist\<close> predates \<^verbatim>\<open>errors.Is\<close> and does not follow \<^verbatim>\<open>%w\<close> wrapping.\<close>

fun IsNotExist :: "error \<Rightarrow> bool" where
  "IsNotExist ErrNotExist = True"
| "IsNotExist _ = False"

text \<open>\<^verbatim>\<open>errors.Is\<close>: the error itself or an error on its chain of wrapped errors.\<close>

fun errors_Is :: "error \<Rightarrow> error \<Rightarrow> bool" where
  "errors_Is (Errorf msg (Some w)) target =
     (Errorf msg (Some w) = target \<or> errors_Is w target)"
| "errors_Is e target = (e = target)"

text \<open>
  The struct \<^verbatim>\<open>fileinfo\<close>, with the fields the struct literals of the source give it.
  The field \<^verbatim>\<open>size\<close> is an \<^verbatim>\<open>int64\<close> that only ever holds the length of a slice.
\<close>

record fileinfo =
  name :: string
  size_bytes :: int
  modified :: time
  isDir :: bool
  mode :: FileMode

text \<open>\<^verbatim>\<open>bytes.Reader\<close>: the slice being read (its field \<^verbatim>\<open>s\<close>) and the read position (\<^verbatim>\<open>i\<close>).\<close>

record Reader =
  s_bytes :: "byte list"
  i_pos :: nat

definition NewReader :: "byte list \<Rightarrow> Reader" where
  "NewReader b = \<lparr>s_bytes = b, i_pos = 0\<rparr>"

text \<open>The struct \<^verbatim>\<open>file\<close>: \<^verbatim>\<open>reader\<close> is a pointer, nil in the records stored in the tree.\<close>

record "file" =
  info :: fileinfo
  content :: "byte list"
  reader :: "Reader option"

text \<open>The struct \<^verbatim>\<open>dir\<close>; its selectors are written \<open>dir.info\<close>, \<open>dirs\<close> and \<open>files\<close>.\<close>

datatype dir =
  Dir (info: fileinfo) (dirs: "(string, dir) fmap") (files: "(string, file) fmap")

text \<open>The struct \<^verbatim>\<open>FS\<close>.\<close>

record FS =
  dir :: dir

text \<open>What \<^verbatim>\<open>Open\<close> returns as an \<^verbatim>\<open>fs.File\<close>: a \<^verbatim>\<open>*dir\<close> or a \<^verbatim>\<open>*file\<close>.\<close>

datatype handle = DirHandle dir | FileHandle "file"

subsection \<open>Paths\<close>

text \<open>
  \<^verbatim>\<open>strings.Split(s, separator)\<close> and \<^verbatim>\<open>strings.Join(parts, separator)\<close> for the
  separator \<^verbatim>\<open>"/"\<close>.  Splitting never returns an empty slice: the empty string splits
  into one empty segment.
\<close>

fun Split :: "string \<Rightarrow> string list" where
  "Split [] = [[]]"
| "Split (c # cs) =
     (if c = CHR ''/'' then [] # Split cs
      else (case Split cs of p # ps \<Rightarrow> (c # p) # ps | [] \<Rightarrow> [[c]]))"

fun Join :: "string list \<Rightarrow> string" where
  "Join [] = []"
| "Join [p] = p"
| "Join (p # q # ps) = p @ ''/'' @ Join (q # ps)"

lemma Split_not_Nil: "Split path \<noteq> []"
  by (induction path) (auto split: list.splits)

lemma Join_Split: "Join (Split path) = path"
proof (induction path)
  case Nil
  show ?case by simp
next
  case (Cons c cs)
  obtain p ps where sp: "Split cs = p # ps"
    using Split_not_Nil [of cs] by (cases "Split cs") auto
  with Cons show ?case by (cases ps) auto
qed

lemma length_Join_tl: "length (Join (tl ps)) \<le> length (Join ps)"
  by (induction ps rule: Join.induct) auto

lemma length_Join_tl_less:
  "length ps \<noteq> 1 \<Longrightarrow> ps \<noteq> [] \<Longrightarrow> length (Join (tl ps)) < length (Join ps)"
  by (induction ps rule: Join.induct) auto

lemma rest_shorter:
  "length (Split path) \<noteq> 1 \<Longrightarrow> length (Join (tl (Split path))) < length path"
  using length_Join_tl_less [of "Split path"] by (simp add: Split_not_Nil Join_Split)

lemma rest_shorter':
  "path \<noteq> [] \<Longrightarrow> length (Join (tl (Split path))) < length path"
proof (cases "length (Split path) = 1")
  case True
  assume "path \<noteq> []"
  moreover from True have "tl (Split path) = []"
    by (cases "Split path") auto
  ultimately show ?thesis by simp
next
  case False
  then show ?thesis by (rule rest_shorter)
qed

lemma Split_no_sep: "p \<in> set (Split path) \<Longrightarrow> CHR ''/'' \<notin> set p"
proof (induction path arbitrary: p)
  case Nil
  then show ?case by simp
next
  case (Cons c cs)
  obtain q qs where sp: "Split cs = q # qs"
    using Split_not_Nil [of cs] by (cases "Split cs") auto
  with Cons show ?case by (auto split: if_splits)
qed

lemma Split_single: "CHR ''/'' \<notin> set p \<Longrightarrow> Split p = [p]"
  by (induction p) auto

lemma Split_Join:
  "ps \<noteq> [] \<Longrightarrow> \<forall>p \<in> set ps. CHR ''/'' \<notin> set p \<Longrightarrow> Split (Join ps) = ps"
proof (induction ps rule: Join.induct)
  case 1
  then show ?case by simp
next
  case (2 p)
  then show ?case by (simp add: Split_single)
next
  case (3 p q ps)
  then have rest: "Split (Join (q # ps)) = q # ps" by simp
  from 3 have "CHR ''/'' \<notin> set p" by simp
  then show ?case using rest by (induction p) auto
qed

lemma Split_rest:
  "length (Split path) \<noteq> 1 \<Longrightarrow> Split (Join (tl (Split path))) = tl (Split path)"
proof -
  assume "length (Split path) \<noteq> 1"
  then have "tl (Split path) \<noteq> []"
    using Split_not_Nil [of path] by (cases "Split path") auto
  moreover have "\<forall>p \<in> set (tl (Split path)). CHR ''/'' \<notin> set p"
    using Split_no_sep [of _ path] by (meson list.set_sel(2) Split_not_Nil)
  ultimately show ?thesis by (rule Split_Join)
qed

lemma Split_one: "length (Split path) = 1 \<Longrightarrow> hd (Split path) = path"
proof -
  assume "length (Split path) = 1"
  then obtain p where "Split path = [p]"
    by (cases "Split path") auto
  then show ?thesis using Join_Split [of path] by simp
qed

subsection \<open>Resolution\<close>

text \<open>
  \<^verbatim>\<open>func (d *dir) getDir(name string) (*dir, error)\<close>: the recursion is on the rest of
  the path, which is shorter than the path.
\<close>

function getDir :: "dir \<Rightarrow> string \<Rightarrow> error + dir" where
  "getDir d nm =
     (if nm = [] then Inr d
      else
        let parts = Split nm in
        case fmlookup (dirs d) (hd parts) of
          Some f \<Rightarrow> getDir f (Join (tl parts))
        | None \<Rightarrow> Inl ErrNotExist)"
  by pat_completeness auto
termination
  by (relation "measure (\<lambda>(d, nm). length nm)") (auto simp: rest_shorter')

text \<open>
  \<^verbatim>\<open>func (d *dir) getFile(name string) (*file, error)\<close>.  The map holds file records
  by value, so setting the reader changes the returned copy only.
\<close>

function getFile :: "dir \<Rightarrow> string \<Rightarrow> error + file" where
  "getFile d nm =
     (let parts = Split nm in
      if length parts = 1 then
        (case fmlookup (files d) nm of
           Some f \<Rightarrow> Inr (f\<lparr>reader := Some (NewReader (content f))\<rparr>)
         | None \<Rightarrow> Inl ErrNotExist)
      else
        (case getDir d (hd parts) of
           Inl err \<Rightarrow> Inl err
         | Inr sub \<Rightarrow> getFile sub (Join (tl parts))))"
  by pat_completeness auto
termination
  by (relation "measure (\<lambda>(d, nm). length nm)") (auto simp: rest_shorter)

text \<open>\<^verbatim>\<open>func (d *dir) Stat() (fs.FileInfo, error)\<close>.\<close>

definition dir_Stat :: "dir \<Rightarrow> error + fileinfo" where
  "dir_Stat d = Inr (dir.info d)"

text \<open>
  \<^verbatim>\<open>func (d *dir) ReadDir(name string) ([]fs.DirEntry, error)\<close>.  The two \<^verbatim>\<open>range\<close>
  loops visit the entries of a map in an order Go leaves open; here they visit them by
  ascending key.  \<^verbatim>\<open>sort.Slice\<close> then orders the entries by name; it is not a stable
  sort, so the order it leaves between two entries of one name is open as well, and
  \<open>sort_key\<close> keeps the order of the visit.
\<close>

function ReadDir :: "dir \<Rightarrow> string \<Rightarrow> error + fileinfo list" where
  "ReadDir d nm =
     (if nm = [] then
        Inr (sort_key fileinfo.name
              (map (\<lambda>(k, f). file.info f) (sorted_list_of_fmap (files d)) @
               map (\<lambda>(k, c). dir.info c) (sorted_list_of_fmap (dirs d))))
      else
        let parts = Split nm in
        case fmlookup (dirs d) (hd parts) of
          None \<Rightarrow> Inl ErrNotExist
        | Some c \<Rightarrow> ReadDir c (Join (tl parts)))"
  by pat_completeness auto
termination
  by (relation "measure (\<lambda>(d, nm). length nm)") (auto simp: rest_shorter')

text \<open>
  \<^verbatim>\<open>func (f *dir) Read(_ []byte) (int, error)\<close> and \<^verbatim>\<open>func (f *dir) Close() error\<close>.
  The argument of \<open>dir_Read\<close> is the length of the buffer, which the method ignores.
\<close>

definition dir_Read :: "dir \<Rightarrow> nat \<Rightarrow> nat \<times> error option" where
  "dir_Read f n = (0, Some (Errorf ''cannot read directory'' None))"


text \<open>
  \<^verbatim>\<open>func (d *dir) Open(name string) (fs.File, error)\<close>.  The message of the last error
  ends with the message of \<^verbatim>\<open>fs.ErrNotExist\<close>, which the \<^verbatim>\<open>%w\<close> verb also wraps.
\<close>

definition not_found :: "string \<Rightarrow> error" where
  "not_found nm =
     Errorf (''no such file or directory: '' @ nm @ '': file does not exist'') (Some ErrNotExist)"

definition Open :: "dir \<Rightarrow> string \<Rightarrow> error + handle" where
  "Open d nm =
     (if nm = [] \<or> nm = ''.'' then Inr (DirHandle d)
      else
        case getFile d nm of
          Inr f \<Rightarrow> Inr (FileHandle f)
        | Inl err \<Rightarrow>
            if \<not> IsNotExist err then Inl err
            else
              case getDir d nm of
                Inr f \<Rightarrow> Inr (DirHandle f)
              | Inl err \<Rightarrow>
                  if \<not> IsNotExist err then Inl err
                  else Inl (not_found nm))"

subsection \<open>Mutation\<close>

text \<open>
  The assignments of the mutating methods: \<^verbatim>\<open>f.info.modified = tm\<close>,
  \<^verbatim>\<open>f.dirs[k] = c\<close> and \<^verbatim>\<open>f.files[k] = x\<close>.
\<close>

definition set_modified :: "dir \<Rightarrow> time \<Rightarrow> dir" where
  "set_modified f tm = Dir ((dir.info f)\<lparr>modified := tm\<rparr>) (dirs f) (files f)"

definition set_dir :: "dir \<Rightarrow> string \<Rightarrow> dir \<Rightarrow> dir" where
  "set_dir f k c = Dir (dir.info f) (fmupd k c (dirs f)) (files f)"

definition set_file :: "dir \<Rightarrow> string \<Rightarrow> file \<Rightarrow> dir" where
  "set_file f k x = Dir (dir.info f) (dirs f) (fmupd k x (files f))"

text \<open>
  \<^verbatim>\<open>f.dirs[k]\<close> as an expression: the value stored under the key, or the zero value
  of the struct (whose nil maps read as empty maps).
\<close>

definition zero_dir :: dir where
  "zero_dir =
     Dir \<lparr>name = [], size_bytes = 0, modified = 0, isDir = False, mode = 0\<rparr> fmempty fmempty"

definition index_dirs :: "dir \<Rightarrow> string \<Rightarrow> dir" where
  "index_dirs f k = (case fmlookup (dirs f) k of Some c \<Rightarrow> c | None \<Rightarrow> zero_dir)"

text \<open>
  \<^verbatim>\<open>func (f *dir) MkdirAll(path string, perm fs.FileMode) error\<close>.  The result is the
  error (\<open>None\<close> for nil), the node as the call leaves it, and the number of clock
  readings taken so far.  The child is copied out of the map, the recursive call works
  on the copy, and the copy is stored back whatever the call returned.
\<close>

function MkdirAll :: "clock \<Rightarrow> dir \<Rightarrow> string \<Rightarrow> FileMode \<Rightarrow> nat \<Rightarrow> error option \<times> dir \<times> nat" where
  "MkdirAll now f path perm t =
     (let parts = Split path in
      if fmlookup (files f) (hd parts) \<noteq> None then (Some ErrExist, f, t)
      else
        let f1 = set_modified f (now t);
            t1 = Suc t;
            (f2, t2) =
              (if fmlookup (dirs f1) (hd parts) = None then
                 (set_dir f1 (hd parts)
                    (Dir \<lparr>name = hd parts, size_bytes = 256, modified = now t1,
                          isDir = True, mode = perm\<rparr> fmempty fmempty),
                  Suc t1)
               else (f1, t1))
        in
          if length parts = 1 then (None, f2, t2)
          else
            let child = index_dirs f2 (hd parts);
                (err, child', t3) = MkdirAll now child (Join (tl parts)) perm t2
            in (err, set_dir f2 (hd parts) child', t3))"
  by pat_completeness auto
termination
  by (relation "measure (\<lambda>(now, f, path, perm, t). length path)") (auto simp: rest_shorter)

text \<open>
  \<^verbatim>\<open>func (f *dir) WriteFile(path string, data []byte, perm fs.FileMode) error\<close>.
  \<^verbatim>\<open>buffer\<close> is a fresh slice holding a copy of \<^verbatim>\<open>data\<close>.
\<close>

function WriteFile ::
  "clock \<Rightarrow> dir \<Rightarrow> string \<Rightarrow> byte list \<Rightarrow> FileMode \<Rightarrow> nat \<Rightarrow> error option \<times> dir \<times> nat" where
  "WriteFile now f path data perm t =
     (let parts = Split path in
      if length parts = 1 then
        let buffer = data in
        (None,
         set_file f (hd parts)
           \<lparr>file.info = \<lparr>name = hd parts, size_bytes = int (length buffer), modified = now t,
                    isDir = False, mode = perm\<rparr>,
            content = buffer, reader = None\<rparr>,
         Suc t)
      else if fmlookup (dirs f) (hd parts) = None then (Some ErrNotExist, f, t)
      else
        let child = index_dirs f (hd parts);
            (err, child', t') = WriteFile now child (Join (tl parts)) data perm t
        in (err, set_dir f (hd parts) child', t'))"
  by pat_completeness auto
termination
  by (relation "measure (\<lambda>(now, f, path, data, perm, t). length path)")
    (auto simp: rest_shorter)

subsection \<open>File handles\<close>

text \<open>
  The struct \<^verbatim>\<open>file\<close> and its methods are not among the sources, which use its fields
  \<^verbatim>\<open>info\<close>, \<^verbatim>\<open>content\<close> and \<^verbatim>\<open>reader\<close>, return it as an \<^verbatim>\<open>fs.File\<close> and call its method
  \<^verbatim>\<open>openR\<close>.
\<close>

text \<open>
  Modelled from the spec: the method \<^verbatim>\<open>Read\<close> of the file record, missing from the
  sources.  The spec has an open produce "a fresh readable cursor" over the record,
  "per-open read position over a file record's content": reading goes through the
  \<^verbatim>\<open>bytes.Reader\<close> that \<^verbatim>\<open>getFile\<close> sets, as \<^verbatim>\<open>bytes.Reader.Read\<close> does.  \<open>file_Read f n\<close>
  reads into a buffer of length \<open>n\<close> and returns the bytes read, the error and the
  handle with its new position.
\<close>

definition file_Read :: "file \<Rightarrow> nat \<Rightarrow> byte list \<times> error option \<times> file" where
  "file_Read f n =
     (case reader f of
        None \<Rightarrow> ([], Some NilReader, f)
      | Some r \<Rightarrow>
          if length (s_bytes r) \<le> i_pos r then ([], Some EOF, f)
          else
            let chunk = take n (drop (i_pos r) (s_bytes r)) in
            (chunk, None, f\<lparr>reader := Some (r\<lparr>i_pos := i_pos r + length chunk\<rparr>)\<rparr>))"


text \<open>
  Modelled from the spec: the method \<^verbatim>\<open>openR\<close> of the file record, missing from the
  sources and called by \<^verbatim>\<open>FS.Stat\<close>.  The spec has each open produce "an independent
  cursor over a private copy of the metadata".
\<close>

definition openR :: "file \<Rightarrow> file" where
  "openR f = f\<lparr>reader := Some (NewReader (content f))\<rparr>"

text \<open>
  Modelled from the spec: the method \<^verbatim>\<open>Stat\<close> of an open file, missing from the sources.
  The spec has \<^verbatim>\<open>Stat\<close> resolve "as a file first (cursor metadata)": the metadata of the
  record.
\<close>

definition file_Stat :: "file \<Rightarrow> error + fileinfo" where
  "file_Stat f = Inr (file.info f)"

text \<open>The methods of \<^verbatim>\<open>fs.File\<close>, dispatched on the handle.\<close>

definition Read :: "handle \<Rightarrow> nat \<Rightarrow> byte list \<times> error option \<times> handle" where
  "Read h n =
     (case h of
        DirHandle d \<Rightarrow> (case dir_Read d n of (k, err) \<Rightarrow> ([], err, h))
      | FileHandle f \<Rightarrow> (case file_Read f n of (chunk, err, f') \<Rightarrow> (chunk, err, FileHandle f')))"


text \<open>
  \<^verbatim>\<open>io.ReadAll\<close>, the full read of a handle: read into the free part of a buffer until
  an error; \<^verbatim>\<open>io.EOF\<close> ends the read with the bytes gathered, any other error is
  returned.  The free part always has room (512 bytes here; the bytes gathered do not
  depend on it).  The measure is the number of bytes the handle has left.
\<close>

definition remaining :: "handle \<Rightarrow> nat" where
  "remaining h =
     (case h of
        DirHandle d \<Rightarrow> 0
      | FileHandle f \<Rightarrow>
          (case reader f of None \<Rightarrow> 0 | Some r \<Rightarrow> length (s_bytes r) - i_pos r))"

lemma Read_progress: "Read h 512 = (chunk, None, h') \<Longrightarrow> remaining h' < remaining h"
  by (cases h)
    (auto simp: Read_def dir_Read_def file_Read_def remaining_def Let_def
      split: option.splits if_splits)

function ReadAll_from :: "handle \<Rightarrow> byte list \<Rightarrow> error + byte list" where
  "ReadAll_from h b =
     (case Read h 512 of
        (chunk, Some err, h') \<Rightarrow> if err = EOF then Inr (b @ chunk) else Inl err
      | (chunk, None, h') \<Rightarrow> ReadAll_from h' (b @ chunk))"
  by pat_completeness auto
termination
  by (relation "measure (\<lambda>(h, b). remaining h)") (auto dest: Read_progress [OF sym])

definition ReadAll :: "handle \<Rightarrow> error + byte list" where
  "ReadAll h = ReadAll_from h []"

subsection \<open>The root handle\<close>

text \<open>
  Modelled from the spec: the function \<^verbatim>\<open>cleanse\<close>, missing from the sources, which every
  method of \<^verbatim>\<open>FS\<close> applies to its path.  The spec has paths "cleansed of leading/trailing
  separators and \<^verbatim>\<open>.\<close> segments before resolution", the root path \<^verbatim>\<open>.\<close> becoming the
  empty path: the empty segments and the \<^verbatim>\<open>.\<close> segments are dropped.
\<close>

definition cleanse :: "string \<Rightarrow> string" where
  "cleanse path = Join (filter (\<lambda>p. p \<noteq> [] \<and> p \<noteq> ''.'') (Split path))"

text \<open>
  \<^verbatim>\<open>func New() *FS\<close>: one clock reading.  The struct literal in \<^verbatim>\<open>fs.go\<close> writes the two
  empty maps as maps of pointers, the struct \<^verbatim>\<open>dir\<close> declares them as maps of values;
  an empty map is the same in both.
\<close>

definition New :: "clock \<Rightarrow> nat \<Rightarrow> FS \<times> nat" where
  "New now t =
     (\<lparr>dir = Dir \<lparr>name = ''.'', size_bytes = 256, modified = now t, isDir = True, mode = 448\<rparr>
               fmempty fmempty\<rparr>,
      Suc t)"

text \<open>\<^verbatim>\<open>func (m *FS) Stat(name string) (fs.FileInfo, error)\<close>.\<close>

definition FS_Stat :: "FS \<Rightarrow> string \<Rightarrow> error + fileinfo" where
  "FS_Stat m nm0 =
     (let nm = cleanse nm0 in
      case getFile (dir m) nm of
        Inr f \<Rightarrow> file_Stat (openR f)
      | Inl err \<Rightarrow>
          if \<not> IsNotExist err then Inl err
          else
            case getDir (dir m) nm of
              Inr f \<Rightarrow> dir_Stat f
            | Inl err \<Rightarrow>
                if \<not> IsNotExist err then Inl err
                else Inl (not_found nm))"

text \<open>The forwarding methods \<^verbatim>\<open>ReadDir\<close>, \<^verbatim>\<open>Open\<close>, \<^verbatim>\<open>WriteFile\<close> and \<^verbatim>\<open>MkdirAll\<close> of \<^verbatim>\<open>FS\<close>.\<close>

definition FS_ReadDir :: "FS \<Rightarrow> string \<Rightarrow> error + fileinfo list" where
  "FS_ReadDir m nm = ReadDir (dir m) (cleanse nm)"

definition FS_Open :: "FS \<Rightarrow> string \<Rightarrow> error + handle" where
  "FS_Open m nm = Open (dir m) (cleanse nm)"

definition FS_WriteFile ::
  "clock \<Rightarrow> FS \<Rightarrow> string \<Rightarrow> byte list \<Rightarrow> FileMode \<Rightarrow> nat \<Rightarrow> error option \<times> FS \<times> nat" where
  "FS_WriteFile now m path data perm t =
     (case WriteFile now (dir m) (cleanse path) data perm t of
        (err, d, t') \<Rightarrow> (err, m\<lparr>dir := d\<rparr>, t'))"

definition FS_MkdirAll ::
  "clock \<Rightarrow> FS \<Rightarrow> string \<Rightarrow> FileMode \<Rightarrow> nat \<Rightarrow> error option \<times> FS \<times> nat" where
  "FS_MkdirAll now m path perm t =
     (case MkdirAll now (dir m) (cleanse path) perm t of
        (err, d, t') \<Rightarrow> (err, m\<lparr>dir := d\<rparr>, t'))"

subsection \<open>Nodes along a path\<close>

text \<open>
  The node reached from a node by following a list of segments through the maps of
  child directories; \<open>None\<close> when a segment names no child directory.
\<close>

fun walk :: "dir \<Rightarrow> string list \<Rightarrow> dir option" where
  "walk d [] = Some d"
| "walk d (p # ps) = (case fmlookup (dirs d) p of None \<Rightarrow> None | Some c \<Rightarrow> walk c ps)"

text \<open>A small tree for the examples: the root, and the root with a directory \<^verbatim>\<open>a\<close>.\<close>

definition ticks :: clock where
  "ticks n = 1000 + n"

definition root0 :: dir where
  "root0 = dir (fst (New ticks 0))"

definition root_a :: dir where
  "root_a = fst (snd (MkdirAll ticks root0 ''a'' 448 1))"

definition dir_a :: dir where
  "dir_a =
     Dir \<lparr>name = ''a'', size_bytes = 256, modified = 1002, isDir = True, mode = 448\<rparr>
       fmempty fmempty"

text \<open>The root after a write to the root path: a file entry with the empty name.\<close>

definition root_file :: dir where
  "root_file = fst (snd (WriteFile ticks root0 [] [7] 420 1))"

text \<open>The root with the directory \<^verbatim>\<open>a\<close> and a file \<^verbatim>\<open>t\<close>.\<close>

definition root_at :: dir where
  "root_at = fst (snd (WriteFile ticks root_a ''t'' [104, 105] 420 3))"

definition file_t :: "file" where
  "file_t =
     \<lparr>file.info = \<lparr>name = ''t'', size_bytes = 2, modified = 1003, isDir = False, mode = 420\<rparr>,
      content = [104, 105], reader = None\<rparr>"

text \<open>
  The tree of the repository's test \<^verbatim>\<open>Test_Basics\<close>, with the bytes of \<^verbatim>\<open>hello world\<close>
  and \<^verbatim>\<open>secret file!\<close>, and its directories \<^verbatim>\<open>files/a/b\<close> and \<^verbatim>\<open>files/a\<close> written out.
\<close>

definition hello_world :: "byte list" where
  "hello_world = [104, 101, 108, 108, 111, 32, 119, 111, 114, 108, 100]"

definition secret_file :: "byte list" where
  "secret_file = [115, 101, 99, 114, 101, 116, 32, 102, 105, 108, 101, 33]"

definition test_fs :: FS where
  "test_fs =
     (let (m0, t0) = New ticks 0;
          (e1, m1, t1) = FS_MkdirAll ticks m0 ''files/a/b/c'' 448 t0;
          (e2, m2, t2) = FS_WriteFile ticks m1 ''test.txt'' hello_world 420 t1;
          (e3, m3, t3) = FS_WriteFile ticks m2 ''files/a/b/c/.secret'' secret_file 420 t2;
          (e4, m4, t4) = FS_WriteFile ticks m3 ''files/a/b/c/note.txt'' [58, 41] 420 t3;
          (e5, m5, t5) = FS_WriteFile ticks m4 ''files/a/middle.txt'' [58, 40] 420 t4
      in m5)"

definition test_b :: dir where
  "test_b =
     Dir \<lparr>name = ''b'', size_bytes = 256, modified = 1007, isDir = True, mode = 448\<rparr>
       (fmupd ''c''
          (Dir \<lparr>name = ''c'', size_bytes = 256, modified = 1008, isDir = True, mode = 448\<rparr>
             fmempty
             (fmupd ''note.txt''
                \<lparr>file.info = \<lparr>name = ''note.txt'', size_bytes = 2, modified = 1011,
                               isDir = False, mode = 420\<rparr>,
                   content = [58, 41], reader = None\<rparr>
                (fmupd ''.secret''
                   \<lparr>file.info = \<lparr>name = ''.secret'', size_bytes = 12, modified = 1010,
                                  isDir = False, mode = 420\<rparr>,
                      content = secret_file, reader = None\<rparr>
                   fmempty)))
          fmempty)
       fmempty"

definition test_a :: dir where
  "test_a =
     Dir \<lparr>name = ''a'', size_bytes = 256, modified = 1005, isDir = True, mode = 448\<rparr>
       (fmupd ''b'' test_b fmempty)
       (fmupd ''middle.txt''
          \<lparr>file.info = \<lparr>name = ''middle.txt'', size_bytes = 2, modified = 1012,
                         isDir = False, mode = 420\<rparr>,
             content = [58, 40], reader = None\<rparr>
          fmempty)"

definition root_file2 :: dir where
  "root_file2 = fst (snd (WriteFile ticks root_file [] [8, 9] 384 2))"

text \<open>
  The root with the directory \<^verbatim>\<open>a\<close> and a file \<^verbatim>\<open>a/n.txt\<close>, written once (\<open>root_an1\<close>)
  and written again with other content (\<open>root_an\<close>).
\<close>

definition file_n :: "file" where
  "file_n =
     \<lparr>file.info = \<lparr>name = ''n.txt'', size_bytes = 3, modified = 1003, isDir = False,
                    mode = 420\<rparr>,
      content = [0, 255, 0], reader = None\<rparr>"

definition root_an1 :: dir where
  "root_an1 =
     Dir \<lparr>name = ''.'', size_bytes = 256, modified = 1001, isDir = True, mode = 448\<rparr>
       (fmupd ''a''
          (Dir \<lparr>name = ''a'', size_bytes = 256, modified = 1002, isDir = True, mode = 448\<rparr>
             fmempty
             (fmupd ''n.txt''
                \<lparr>file.info = \<lparr>name = ''n.txt'', size_bytes = 1, modified = 1002,
                               isDir = False, mode = 384\<rparr>,
                   content = [1], reader = None\<rparr>
                fmempty))
          fmempty)
       fmempty"

definition root_an :: dir where
  "root_an =
     Dir \<lparr>name = ''.'', size_bytes = 256, modified = 1001, isDir = True, mode = 448\<rparr>
       (fmupd ''a''
          (Dir \<lparr>name = ''a'', size_bytes = 256, modified = 1002, isDir = True, mode = 448\<rparr>
             fmempty (fmupd ''n.txt'' file_n fmempty))
          fmempty)
       fmempty"

subsection \<open>Notions used by the properties\<close>

text \<open>
  The first statements of \<^verbatim>\<open>MkdirAll\<close> after the check for a file: the node with its
  modification time set and with the child \<open>p\<close> created if it was absent, and the number
  of clock readings after that.
\<close>

definition ensure_dir :: "clock \<Rightarrow> dir \<Rightarrow> string \<Rightarrow> FileMode \<Rightarrow> nat \<Rightarrow> dir \<times> nat" where
  "ensure_dir now f p perm t =
     (if fmlookup (dirs f) p = None then
        (set_dir (set_modified f (now t)) p
           (Dir \<lparr>name = p, size_bytes = 256, modified = now (Suc t), isDir = True, mode = perm\<rparr>
              fmempty fmempty),
         Suc (Suc t))
      else (set_modified f (now t), Suc t))"

text \<open>
  A segment of the path collides with an existing file: walking the path through the
  directories that exist, some segment is a key of the file map of the node reached.
\<close>

function collides :: "dir \<Rightarrow> string \<Rightarrow> bool" where
  "collides f path =
     (let parts = Split path in
      if fmlookup (files f) (hd parts) \<noteq> None then True
      else if length parts = 1 then False
      else
        case fmlookup (dirs f) (hd parts) of
          None \<Rightarrow> False
        | Some c \<Rightarrow> collides c (Join (tl parts)))"
  by pat_completeness auto
termination
  by (relation "measure (\<lambda>(f, path). length path)") (auto simp: rest_shorter)

text \<open>The tree with the modification time of every directory set to zero.\<close>

primrec erase_modified :: "dir \<Rightarrow> dir" where
  "erase_modified (Dir fi ds fs) = Dir (fi\<lparr>modified := 0\<rparr>) (fmmap erase_modified ds) fs"

text \<open>
  The invariant of the directory node: at no node of the tree is a name a key of both
  the map of child directories and the map of file entries.
\<close>

primrec no_shared_name :: "dir \<Rightarrow> bool" where
  "no_shared_name (Dir fi ds fs) =
     (fmdom ds |\<inter>| fmdom fs = {||} \<and> fmpred (\<lambda>k ok. ok) (fmmap no_shared_name ds))"

text \<open>
  More trees for the examples: \<^verbatim>\<open>a/b\<close> created from the empty root, and created again;
  the root with the directory \<^verbatim>\<open>a\<close> and a file \<^verbatim>\<open>a/b\<close>, before and after a failed
  \<^verbatim>\<open>MkdirAll\<close> of \<^verbatim>\<open>a/b\<close>; and the root with a directory and a file both named \<^verbatim>\<open>a\<close>.
\<close>

definition dir_b :: dir where
  "dir_b =
     Dir \<lparr>name = ''b'', size_bytes = 256, modified = 1004, isDir = True, mode = 448\<rparr>
       fmempty fmempty"

definition root_ab :: dir where
  "root_ab =
     Dir \<lparr>name = ''.'', size_bytes = 256, modified = 1001, isDir = True, mode = 448\<rparr>
       (fmupd ''a''
          (Dir \<lparr>name = ''a'', size_bytes = 256, modified = 1003, isDir = True, mode = 448\<rparr>
             (fmupd ''b'' dir_b fmempty) fmempty)
          fmempty)
       fmempty"

definition root_ab2 :: dir where
  "root_ab2 =
     Dir \<lparr>name = ''.'', size_bytes = 256, modified = 1005, isDir = True, mode = 448\<rparr>
       (fmupd ''a''
          (Dir \<lparr>name = ''a'', size_bytes = 256, modified = 1006, isDir = True, mode = 448\<rparr>
             (fmupd ''b'' dir_b fmempty) fmempty)
          fmempty)
       fmempty"

definition file_b :: "file" where
  "file_b =
     \<lparr>file.info = \<lparr>name = ''b'', size_bytes = 1, modified = 1003, isDir = False, mode = 420\<rparr>,
      content = [1], reader = None\<rparr>"

definition root_afb :: dir where
  "root_afb =
     Dir \<lparr>name = ''.'', size_bytes = 256, modified = 1001, isDir = True, mode = 448\<rparr>
       (fmupd ''a''
          (Dir \<lparr>name = ''a'', size_bytes = 256, modified = 1002, isDir = True, mode = 448\<rparr>
             fmempty (fmupd ''b'' file_b fmempty))
          fmempty)
       fmempty"

definition root_afb_touched :: dir where
  "root_afb_touched =
     Dir \<lparr>name = ''.'', size_bytes = 256, modified = 1004, isDir = True, mode = 448\<rparr>
       (fmupd ''a''
          (Dir \<lparr>name = ''a'', size_bytes = 256, modified = 1002, isDir = True, mode = 448\<rparr>
             fmempty (fmupd ''b'' file_b fmempty))
          fmempty)
       fmempty"

definition root_clash :: dir where
  "root_clash =
     Dir \<lparr>name = ''.'', size_bytes = 256, modified = 1001, isDir = True, mode = 448\<rparr>
       (fmupd ''a'' dir_a fmempty)
       (fmupd ''a''
          \<lparr>file.info = \<lparr>name = ''a'', size_bytes = 1, modified = 1003, isDir = False,
                         mode = 420\<rparr>,
             content = [1], reader = None\<rparr>
          fmempty)"


definition dir_afb :: dir where
  "dir_afb =
     Dir \<lparr>name = ''a'', size_bytes = 256, modified = 1002, isDir = True, mode = 448\<rparr>
       fmempty (fmupd ''b'' file_b fmempty)"

section \<open>Properties\<close>

declare getDir.simps [simp del] getFile.simps [simp del] ReadDir.simps [simp del]
  MkdirAll.simps [simp del] WriteFile.simps [simp del] ReadAll_from.simps [simp del]

lemma root0_eq:
  "root0 =
     Dir \<lparr>name = ''.'', size_bytes = 256, modified = 1000, isDir = True, mode = 448\<rparr>
       fmempty fmempty"
  by (simp add: root0_def New_def ticks_def)

lemma root_a_eq:
  "root_a =
     Dir \<lparr>name = ''.'', size_bytes = 256, modified = 1001, isDir = True, mode = 448\<rparr>
       (fmupd ''a''
          (Dir \<lparr>name = ''a'', size_bytes = 256, modified = 1002, isDir = True, mode = 448\<rparr>
             fmempty fmempty)
          fmempty)
       fmempty"
  by (simp add: root_a_def root0_eq MkdirAll.simps set_modified_def set_dir_def ticks_def)

subsection \<open>Errors of resolution\<close>

lemma getDir_error: "getDir d nm = Inl e \<Longrightarrow> e = ErrNotExist"
proof (induction d nm rule: getDir.induct)
  case (1 d nm)
  then show ?case
    by (subst (asm) (2) getDir.simps) (auto simp: Let_def split: if_splits option.splits)
qed

lemma getFile_error: "getFile d nm = Inl e \<Longrightarrow> e = ErrNotExist"
proof (induction d nm rule: getFile.induct)
  case (1 d nm)
  then show ?case
    by (subst (asm) (2) getFile.simps)
      (auto simp: Let_def split: if_splits option.splits sum.splits dest: getDir_error)
qed

subsection \<open>Failed writes\<close>

lemma set_dir_same: "fmlookup (dirs f) k = Some c \<Longrightarrow> set_dir f k c = f"
  by (cases f) (auto simp: set_dir_def intro!: fmap_ext)

lemma WriteFile_no_child:
  "length (Split path) \<noteq> 1 \<Longrightarrow> fmlookup (dirs f) (hd (Split path)) = None \<Longrightarrow>
     WriteFile now f path data perm t = (Some ErrNotExist, f, t)"
  by (subst WriteFile.simps) (simp add: Let_def)

lemma WriteFile_child:
  "length (Split path) \<noteq> 1 \<Longrightarrow> fmlookup (dirs f) (hd (Split path)) = Some c \<Longrightarrow>
     WriteFile now c (Join (tl (Split path))) data perm t = (err, c', t') \<Longrightarrow>
     WriteFile now f path data perm t = (err, set_dir f (hd (Split path)) c', t')"
  by (subst WriteFile.simps) (simp add: Let_def index_dirs_def)

lemma WriteFile_error:
  "WriteFile now f path data perm t = (Some e, f', t') \<Longrightarrow>
     e = ErrNotExist \<and> f' = f \<and> t' = t"
proof (induction now f path data perm t arbitrary: e f' t' rule: WriteFile.induct)
  case (1 now f path data perm t)
  show ?case
  proof (cases "length (Split path) = 1")
    case True
    with "1.prems" show ?thesis
      by (subst (asm) WriteFile.simps) (simp add: Let_def)
  next
    case many: False
    show ?thesis
    proof (cases "fmlookup (dirs f) (hd (Split path))")
      case None
      with many "1.prems" show ?thesis
        by (simp add: WriteFile_no_child)
    next
      case (Some c)
      obtain err c' t1 where
        rec: "WriteFile now c (Join (tl (Split path))) data perm t = (err, c', t1)"
        by (cases "WriteFile now c (Join (tl (Split path))) data perm t") auto
      from "1.prems" have res: "err = Some e" "f' = set_dir f (hd (Split path)) c'" "t' = t1"
        by (simp_all add: WriteFile_child [OF many Some rec])
      have "e = ErrNotExist \<and> c' = c \<and> t1 = t"
        using "1.IH" [OF refl many _ refl, of e c' t1] Some rec res
        by (simp add: index_dirs_def)
      then show ?thesis using res Some by (simp add: set_dir_same)
    qed
  qed
qed

text \<open>
  Claim C7.  A write to a path of several segments reaches, after the segments \<open>ps\<close>, a
  node \<open>c\<close> with the segment \<open>q\<close> next and at least the segment \<open>r\<close> after it.  If \<open>q\<close>
  names no child directory of \<open>c\<close>, the write fails with the not-exist error and returns
  the tree it was given: no directory is created and no file entry is inserted, at any
  node, and the clock is not read.
\<close>

theorem WriteFile_missing_directory:
  "Split path = ps @ q # r # rs \<Longrightarrow> walk f ps = Some c \<Longrightarrow> fmlookup (dirs c) q = None \<Longrightarrow>
     WriteFile now f path data perm t = (Some ErrNotExist, f, t)"
proof (induction ps arbitrary: f path)
  case Nil
  then show ?case by (simp add: WriteFile_no_child)
next
  case (Cons p ps)
  from Cons.prems obtain c1 where
    c1: "fmlookup (dirs f) p = Some c1" and w: "walk c1 ps = Some c"
    by (auto split: option.splits)
  from Cons.prems have many: "length (Split path) \<noteq> 1" and hd: "hd (Split path) = p"
    by simp_all
  have "Split (Join (tl (Split path))) = ps @ q # r # rs"
    using Split_rest [OF many] Cons.prems(1) by simp
  then have "WriteFile now c1 (Join (tl (Split path))) data perm t = (Some ErrNotExist, c1, t)"
    using w Cons.prems(3) by (rule Cons.IH)
  then show ?case
    using WriteFile_child [OF many, of f c1 now data perm t "Some ErrNotExist" c1 t] c1 hd
    by (simp add: set_dir_same)
qed

theorem WriteFile_missing_directory_witness:
  "Split ''a/missing_dir/x.txt'' = [''a''] @ ''missing_dir'' # ''x.txt'' # [] \<and>
   walk root_a [''a''] =
     Some (Dir \<lparr>name = ''a'', size_bytes = 256, modified = 1002, isDir = True, mode = 448\<rparr>
             fmempty fmempty) \<and>
   fmlookup
     (dirs (Dir \<lparr>name = ''a'', size_bytes = 256, modified = 1002, isDir = True, mode = 448\<rparr>
              fmempty fmempty)) ''missing_dir'' = None \<and>
   WriteFile ticks root_a ''a/missing_dir/x.txt'' [1, 0] 420 3 = (Some ErrNotExist, root_a, 3)"
  using WriteFile_missing_directory
    [where path = "''a/missing_dir/x.txt''" and ps = "[''a'']" and q = "''missing_dir''"
       and r = "''x.txt''" and rs = "[]" and f = root_a and now = ticks and data = "[1, 0]"
       and perm = 420 and t = 3]
  by (simp add: root_a_eq)

lemma root_a_dir_a:
  "root_a =
     Dir \<lparr>name = ''.'', size_bytes = 256, modified = 1001, isDir = True, mode = 448\<rparr>
       (fmupd ''a'' dir_a fmempty) fmempty"
  by (simp add: root_a_eq dir_a_def)

lemma root_file_eq:
  "root_file =
     Dir \<lparr>name = ''.'', size_bytes = 256, modified = 1000, isDir = True, mode = 448\<rparr>
       fmempty
       (fmupd []
          \<lparr>file.info = \<lparr>name = [], size_bytes = 1, modified = 1001, isDir = False,
                         mode = 420\<rparr>,
             content = [7], reader = None\<rparr>
          fmempty)"
  by (simp add: root_file_def root0_eq WriteFile.simps set_file_def ticks_def)

lemma root_file_public:
  "FS_WriteFile ticks (fst (New ticks 0)) ''.'' [7] 420 1 = (None, \<lparr>dir = root_file\<rparr>, 2)"
  by (simp add: FS_WriteFile_def New_def cleanse_def WriteFile.simps root_file_eq
      set_file_def ticks_def)

subsection \<open>Opening\<close>

lemma errors_Is_not_found: "errors_Is (not_found nm) ErrNotExist"
  by (simp add: not_found_def)


lemma root_at_eq:
  "root_at =
     Dir \<lparr>name = ''.'', size_bytes = 256, modified = 1001, isDir = True, mode = 448\<rparr>
       (fmupd ''a'' dir_a fmempty) (fmupd ''t'' file_t fmempty)"
  by (simp add: root_at_def root_a_dir_a WriteFile.simps set_file_def ticks_def file_t_def)

text \<open>
  Claim C8, amended.  For every path other than the empty path and \<^verbatim>\<open>.\<close>, \<^verbatim>\<open>Open\<close> tries
  the path as a file, then as a directory: it returns the file if the first succeeds,
  an error of the first that is not the not-exist sentinel, the directory if the second
  succeeds, an error of the second that is not the sentinel, and else an error that
  wraps the sentinel, which \<^verbatim>\<open>errors.Is\<close> recognises.  \<^verbatim>\<open>Stat\<close> does the same for every
  path, on the cleansed path, returning the metadata.  Resolution has no error but the
  sentinel.  For the empty path and for \<^verbatim>\<open>.\<close>, \<^verbatim>\<open>Open\<close> returns the node itself and tries
  nothing.
\<close>

theorem Open_Stat_file_first:
  "(nm \<noteq> [] \<and> nm \<noteq> ''.'' \<longrightarrow>
      (\<forall>f. getFile d nm = Inr f \<longrightarrow> Open d nm = Inr (FileHandle f)) \<and>
      (\<forall>e. getFile d nm = Inl e \<and> \<not> IsNotExist e \<longrightarrow> Open d nm = Inl e) \<and>
      (\<forall>e sub. getFile d nm = Inl e \<and> IsNotExist e \<and> getDir d nm = Inr sub \<longrightarrow>
         Open d nm = Inr (DirHandle sub)) \<and>
      (\<forall>e e'. getFile d nm = Inl e \<and> IsNotExist e \<and> getDir d nm = Inl e' \<and> \<not> IsNotExist e' \<longrightarrow>
         Open d nm = Inl e') \<and>
      (\<forall>e e'. getFile d nm = Inl e \<and> IsNotExist e \<and> getDir d nm = Inl e' \<and> IsNotExist e' \<longrightarrow>
         Open d nm = Inl (not_found nm))) \<and>
   (nm = [] \<or> nm = ''.'' \<longrightarrow> Open d nm = Inr (DirHandle d)) \<and>
   (\<forall>f. getFile (dir m) (cleanse nm0) = Inr f \<longrightarrow> FS_Stat m nm0 = Inr (file.info f)) \<and>
   (\<forall>e. getFile (dir m) (cleanse nm0) = Inl e \<and> \<not> IsNotExist e \<longrightarrow> FS_Stat m nm0 = Inl e) \<and>
   (\<forall>e sub. getFile (dir m) (cleanse nm0) = Inl e \<and> IsNotExist e \<and>
        getDir (dir m) (cleanse nm0) = Inr sub \<longrightarrow>
      FS_Stat m nm0 = Inr (dir.info sub)) \<and>
   (\<forall>e e'. getFile (dir m) (cleanse nm0) = Inl e \<and> IsNotExist e \<and>
        getDir (dir m) (cleanse nm0) = Inl e' \<and> \<not> IsNotExist e' \<longrightarrow>
      FS_Stat m nm0 = Inl e') \<and>
   (\<forall>e e'. getFile (dir m) (cleanse nm0) = Inl e \<and> IsNotExist e \<and>
        getDir (dir m) (cleanse nm0) = Inl e' \<and> IsNotExist e' \<longrightarrow>
      FS_Stat m nm0 = Inl (not_found (cleanse nm0))) \<and>
   errors_Is (not_found nm) ErrNotExist \<and>
   (\<forall>e. getFile d nm = Inl e \<longrightarrow> IsNotExist e) \<and>
   (\<forall>e. getDir d nm = Inl e \<longrightarrow> IsNotExist e)"
proof (intro conjI allI impI; (elim conjE)?)
  fix e
  assume "getFile d nm = Inl e"
  then show "IsNotExist e" using getFile_error by fastforce
next
  fix e
  assume "getDir d nm = Inl e"
  then show "IsNotExist e" using getDir_error by fastforce
next
  assume "nm = [] \<or> nm = ''.''"
  then show "Open d nm = Inr (DirHandle d)" by (auto simp: Open_def)
qed (simp_all add: Open_def FS_Stat_def file_Stat_def openR_def dir_Stat_def
    errors_Is_not_found)

theorem Open_Stat_file_first_witness:
  "getFile root_at ''t'' = Inr (file_t\<lparr>reader := Some (NewReader [104, 105])\<rparr>) \<and>
   Open root_at ''t'' = Inr (FileHandle (file_t\<lparr>reader := Some (NewReader [104, 105])\<rparr>)) \<and>
   FS_Stat \<lparr>dir = root_at\<rparr> ''/t'' = Inr (file.info file_t) \<and>
   getFile root_at ''a'' = Inl ErrNotExist \<and> getDir root_at ''a'' = Inr dir_a \<and>
   Open root_at ''a'' = Inr (DirHandle dir_a) \<and>
   FS_Stat \<lparr>dir = root_at\<rparr> ''a/'' = Inr (dir.info dir_a) \<and>
   getFile root_at ''b'' = Inl ErrNotExist \<and> getDir root_at ''b'' = Inl ErrNotExist \<and>
   Open root_at ''b'' = Inl (not_found ''b'') \<and>
   FS_Stat \<lparr>dir = root_at\<rparr> ''b'' = Inl (not_found ''b'') \<and>
   errors_Is (not_found ''b'') ErrNotExist \<and>
   Open root_at [] = Inr (DirHandle root_at)"
  using Open_Stat_file_first [of "''t''" root_at "\<lparr>dir = root_at\<rparr>" "''/t''"]
    Open_Stat_file_first [of "''a''" root_at "\<lparr>dir = root_at\<rparr>" "''a/''"]
    Open_Stat_file_first [of "''b''" root_at "\<lparr>dir = root_at\<rparr>" "''b''"]
    Open_Stat_file_first [of "[]" root_at "\<lparr>dir = root_at\<rparr>" "''b''"]
  by (simp add: root_at_eq getDir.simps getFile.simps cleanse_def file_t_def)

text \<open>
  Against claim C8 as stated: after a write to the root path the root has a file entry
  with the empty name.  File resolution of the root path then succeeds, and \<^verbatim>\<open>Stat\<close>
  returns the metadata of that file, but \<^verbatim>\<open>Open\<close> returns the root directory.
\<close>

theorem Open_file_first_counterexample:
  "FS_WriteFile ticks (fst (New ticks 0)) ''.'' [7] 420 1 = (None, \<lparr>dir = root_file\<rparr>, 2) \<and>
   getFile (dir \<lparr>dir = root_file\<rparr>) (cleanse ''.'') =
     Inr \<lparr>file.info = \<lparr>name = [], size_bytes = 1, modified = 1001, isDir = False,
                        mode = 420\<rparr>,
          content = [7], reader = Some (NewReader [7])\<rparr> \<and>
   FS_Stat \<lparr>dir = root_file\<rparr> ''.'' =
     Inr \<lparr>name = [], size_bytes = 1, modified = 1001, isDir = False, mode = 420\<rparr> \<and>
   FS_Open \<lparr>dir = root_file\<rparr> ''.'' = Inr (DirHandle root_file)"
  using root_file_public
  by (simp add: cleanse_def FS_Open_def FS_Stat_def Open_def getFile.simps root_file_eq
      file_Stat_def openR_def)

subsection \<open>Listing\<close>

lemma count_list_insort_key:
  "count_list (insort_key k x xs) e = count_list (x # xs) e"
  by (induction xs) auto

lemma count_list_sort_key: "count_list (sort_key k xs) e = count_list xs e"
  by (induction xs) (auto simp: count_list_insort_key)

lemma count_list_map_distinct:
  "distinct ks \<Longrightarrow> count_list (map h ks) e = card {k \<in> set ks. h k = e}"
proof (induction ks)
  case Nil
  then show ?case by simp
next
  case (Cons k ks)
  have fin: "finite {x \<in> set ks. h x = e}" by simp
  show ?case
  proof (cases "h k = e")
    case True
    then have "{x \<in> set (k # ks). h x = e} = insert k {x \<in> set ks. h x = e}" by auto
    moreover from Cons.prems have "k \<notin> {x \<in> set ks. h x = e}" by simp
    ultimately show ?thesis using Cons True fin by simp
  next
    case False
    then have "{x \<in> set (k # ks). h x = e} = {x \<in> set ks. h x = e}" by auto
    then show ?thesis using Cons False by simp
  qed
qed

lemma distinct_sorted_list_of_fset: "distinct (sorted_list_of_fset S)"
  by (simp add: sorted_list_of_fset.rep_eq)

lemma length_sorted_list_of_fmap: "length (sorted_list_of_fmap m) = fcard (fmdom m)"
  by (simp add: sorted_list_of_fmap_def sorted_list_of_fset.rep_eq fcard.rep_eq)

lemma count_list_values:
  "count_list (map (\<lambda>(k, v). g v) (sorted_list_of_fmap m)) e =
     card {k. \<exists>v. fmlookup m k = Some v \<and> g v = e}"
proof -
  have "count_list (map (\<lambda>(k, v). g v) (sorted_list_of_fmap m)) e =
          count_list (map (\<lambda>k. g (the (fmlookup m k))) (sorted_list_of_fset (fmdom m))) e"
    by (simp add: sorted_list_of_fmap_def comp_def)
  also have "\<dots> = card {k \<in> fset (fmdom m). g (the (fmlookup m k)) = e}"
    using count_list_map_distinct [OF distinct_sorted_list_of_fset] by simp
  also have "{k \<in> fset (fmdom m). g (the (fmlookup m k)) = e} =
               {k. \<exists>v. fmlookup m k = Some v \<and> g v = e}"
    by (auto simp: fmlookup_dom_iff)
  finally show ?thesis .
qed

lemma ReadDir_here:
  "ReadDir d [] =
     Inr (sort_key fileinfo.name
           (map (\<lambda>(k, f). file.info f) (sorted_list_of_fmap (files d)) @
            map (\<lambda>(k, c). dir.info c) (sorted_list_of_fmap (dirs d))))"
  by (simp add: ReadDir.simps)

lemma ReadDir_getDir:
  "ReadDir d nm = (case getDir d nm of Inl e \<Rightarrow> Inl e | Inr sub \<Rightarrow> ReadDir sub [])"
proof (induction d nm rule: getDir.induct)
  case (1 d nm)
  show ?case
  proof (cases "nm = []")
    case True
    then show ?thesis by (simp add: getDir.simps)
  next
    case False
    show ?thesis
    proof (cases "fmlookup (dirs d) (hd (Split nm))")
      case None
      with False show ?thesis
        by (subst ReadDir.simps, subst getDir.simps) (simp add: Let_def)
    next
      case (Some c)
      have "ReadDir d nm = ReadDir c (Join (tl (Split nm)))"
        using False Some by (subst ReadDir.simps) (simp add: Let_def)
      moreover have "getDir d nm = getDir c (Join (tl (Split nm)))"
        using False Some by (subst getDir.simps) (simp add: Let_def)
      ultimately show ?thesis
        using "1.IH" [OF False refl Some] by simp
    qed
  qed
qed

text \<open>
  Claim C4.  Where a path resolves to a directory, \<^verbatim>\<open>ReadDir\<close> returns a list that is
  sorted by name in the bytewise lexicographic order, that has as many entries as the
  directory has file entries and child directories, and in which each metadata value
  occurs exactly as often as it is the metadata of a file entry or of a child directory
  of that directory: one entry per immediate child, none for anything deeper.
\<close>

theorem ReadDir_sorted_children:
  "getDir d nm = Inr sub \<Longrightarrow>
     \<exists>es. ReadDir d nm = Inr es \<and>
       sorted (map fileinfo.name es) \<and>
       length es = fcard (fmdom (files sub)) + fcard (fmdom (dirs sub)) \<and>
       (\<forall>e. count_list es e =
          card {k. \<exists>f. fmlookup (files sub) k = Some f \<and> file.info f = e} +
          card {k. \<exists>c. fmlookup (dirs sub) k = Some c \<and> dir.info c = e})"
proof -
  assume res: "getDir d nm = Inr sub"
  let ?es = "sort_key fileinfo.name
           (map (\<lambda>(k, f). file.info f) (sorted_list_of_fmap (files sub)) @
            map (\<lambda>(k, c). dir.info c) (sorted_list_of_fmap (dirs sub)))"
  have "ReadDir d nm = Inr ?es"
    using res by (subst ReadDir_getDir) (simp add: ReadDir_here)
  moreover have "sorted (map fileinfo.name ?es)"
    by (rule sorted_sort_key)
  moreover have "length ?es = fcard (fmdom (files sub)) + fcard (fmdom (dirs sub))"
    by (simp add: length_sorted_list_of_fmap)
  moreover have "count_list ?es e =
          card {k. \<exists>f. fmlookup (files sub) k = Some f \<and> file.info f = e} +
          card {k. \<exists>c. fmlookup (dirs sub) k = Some c \<and> dir.info c = e}" for e
    by (simp only: count_list_sort_key count_list_append count_list_values)
  ultimately show ?thesis by blast
qed

lemma test_getDir: "getDir (dir test_fs) ''files/a'' = Inr test_a"
  by code_simp

lemma test_ReadDir:
  "ReadDir (dir test_fs) ''files/a'' =
     Inr [\<lparr>name = ''b'', size_bytes = 256, modified = 1007, isDir = True, mode = 448\<rparr>,
          \<lparr>name = ''middle.txt'', size_bytes = 2, modified = 1012, isDir = False,
             mode = 420\<rparr>]"
  by code_simp

text \<open>What the subtests of \<^verbatim>\<open>Test_Basics\<close> assert, on the embedding.\<close>

lemma Test_Basics_open:
  "(case FS_Open test_fs ''test.txt'' of Inr h \<Rightarrow> ReadAll h = Inr hello_world | Inl e \<Rightarrow> False) \<and>
   (case FS_Open test_fs ''missing.txt'' of Inr h \<Rightarrow> False | Inl e \<Rightarrow> True) \<and>
   (case FS_Open test_fs ''files'' of
      Inr h \<Rightarrow> fst (snd (Read h 0)) \<noteq> None
    | Inl e \<Rightarrow> False) \<and>
   (case FS_Open test_fs ''files/a/b/c/.secret'' of
      Inr h \<Rightarrow> ReadAll h = Inr secret_file
    | Inl e \<Rightarrow> False)"
  by code_simp

lemma Test_Basics_stat:
  "FS_Stat test_fs ''test.txt'' =
     Inr \<lparr>name = ''test.txt'', size_bytes = 11, modified = 1009, isDir = False, mode = 420\<rparr> \<and>
   FS_Stat test_fs ''files/a/b/c/.secret'' =
     Inr \<lparr>name = ''.secret'', size_bytes = 12, modified = 1010, isDir = False, mode = 420\<rparr> \<and>
   (case FS_Stat test_fs ''missing.txt'' of Inr fi \<Rightarrow> False | Inl e \<Rightarrow> True) \<and>
   FS_Stat test_fs ''.'' =
     Inr \<lparr>name = ''.'', size_bytes = 256, modified = 1001, isDir = True, mode = 448\<rparr>"
  by code_simp

lemma Test_Basics_list:
  "map_sum id (map (\<lambda>fi. (fileinfo.name fi, isDir fi))) (FS_ReadDir test_fs ''.'') =
     Inr [(''files'', True), (''test.txt'', False)] \<and>
   map_sum id (map (\<lambda>fi. (fileinfo.name fi, isDir fi))) (FS_ReadDir test_fs ''files/a'') =
     Inr [(''b'', True), (''middle.txt'', False)] \<and>
   map_sum id (map (\<lambda>fi. (fileinfo.name fi, isDir fi))) (FS_ReadDir test_fs ''files/a/b/c'') =
     Inr [(''.secret'', False), (''note.txt'', False)]"
  by code_simp

theorem ReadDir_sorted_children_witness:
  "getDir (dir test_fs) ''files/a'' = Inr test_a \<and>
   ReadDir (dir test_fs) ''files/a'' =
     Inr [\<lparr>name = ''b'', size_bytes = 256, modified = 1007, isDir = True, mode = 448\<rparr>,
          \<lparr>name = ''middle.txt'', size_bytes = 2, modified = 1012, isDir = False,
             mode = 420\<rparr>] \<and>
   fcard (fmdom (files test_a)) + fcard (fmdom (dirs test_a)) = 2"
  using ReadDir_sorted_children [of "dir test_fs" "''files/a''" test_a] test_getDir test_ReadDir
  by auto

subsection \<open>Writing, then opening\<close>

lemma WriteFile_last:
  "length (Split path) = 1 \<Longrightarrow>
     WriteFile now f path data perm t =
       (None,
        set_file f path
          \<lparr>file.info = \<lparr>name = path, size_bytes = int (length data), modified = now t,
                         isDir = False, mode = perm\<rparr>,
             content = data, reader = None\<rparr>,
        Suc t)"
  by (subst WriteFile.simps) (simp add: Let_def Split_one)

lemma getDir_empty: "getDir d [] = Inr d"
  by (simp add: getDir.simps)

lemma getDir_segment:
  "p \<noteq> [] \<Longrightarrow> CHR ''/'' \<notin> set p \<Longrightarrow>
     getDir d p = (case fmlookup (dirs d) p of Some c \<Rightarrow> Inr c | None \<Rightarrow> Inl ErrNotExist)"
  by (subst getDir.simps) (simp add: Split_single getDir_empty Let_def split: option.splits)

lemma getFile_last:
  "length (Split nm) = 1 \<Longrightarrow>
     getFile d nm =
       (case fmlookup (files d) nm of
          Some f \<Rightarrow> Inr (f\<lparr>reader := Some (NewReader (content f))\<rparr>)
        | None \<Rightarrow> Inl ErrNotExist)"
  by (subst getFile.simps) (simp add: Let_def)

lemma getFile_child:
  "length (Split nm) \<noteq> 1 \<Longrightarrow> hd (Split nm) \<noteq> [] \<Longrightarrow>
     fmlookup (dirs d) (hd (Split nm)) = Some c \<Longrightarrow>
     getFile d nm = getFile c (Join (tl (Split nm)))"
proof -
  assume many: "length (Split nm) \<noteq> 1" and ne: "hd (Split nm) \<noteq> []"
    and c: "fmlookup (dirs d) (hd (Split nm)) = Some c"
  have "CHR ''/'' \<notin> set (hd (Split nm))"
    using Split_no_sep [of "hd (Split nm)" nm] Split_not_Nil [of nm] by simp
  then have "getDir d (hd (Split nm)) = Inr c"
    using ne c by (simp add: getDir_segment)
  then show ?thesis
    using many by (subst getFile.simps) (simp add: Let_def)
qed

lemma tl_not_Nil: "length (Split path) \<noteq> 1 \<Longrightarrow> tl (Split path) \<noteq> []"
  using Split_not_Nil [of path] by (cases "Split path") auto

lemma last_rest:
  "length (Split path) \<noteq> 1 \<Longrightarrow> last (Split (Join (tl (Split path)))) = last (Split path)"
  using tl_not_Nil [of path] by (simp add: Split_rest last_tl)

lemma butlast_rest:
  "length (Split path) \<noteq> 1 \<Longrightarrow>
     set (butlast (Split (Join (tl (Split path))))) \<subseteq> set (butlast (Split path))"
proof -
  assume many: "length (Split path) \<noteq> 1"
  have "set (butlast (tl (Split path))) \<subseteq> set (butlast (Split path))"
    by (cases "Split path") auto
  then show ?thesis using Split_rest [OF many] by simp
qed

lemma hd_butlast:
  "length (Split path) \<noteq> 1 \<Longrightarrow> hd (Split path) \<in> set (butlast (Split path))"
  using Split_not_Nil [of path] by (cases "Split path") auto

lemma getFile_WriteFile:
  "WriteFile now f path data perm t = (None, f', t') \<Longrightarrow> [] \<notin> set (butlast (Split path)) \<Longrightarrow>
     getFile f' path =
       Inr \<lparr>file.info = \<lparr>name = last (Split path), size_bytes = int (length data),
                          modified = now t, isDir = False, mode = perm\<rparr>,
            content = data, reader = Some (NewReader data)\<rparr> \<and> t' = Suc t"
proof (induction now f path data perm t arbitrary: f' t' rule: WriteFile.induct)
  case (1 now f path data perm t)
  show ?case
  proof (cases "length (Split path) = 1")
    case True
    then have "last (Split path) = path"
      using Split_one [OF True] by (cases "Split path") auto
    with True "1.prems" show ?thesis
      by (auto simp: WriteFile_last getFile_last set_file_def)
  next
    case many: False
    show ?thesis
    proof (cases "fmlookup (dirs f) (hd (Split path))")
      case None
      with many "1.prems" show ?thesis
        by (simp add: WriteFile_no_child)
    next
      case (Some c)
      obtain err c' t1 where
        rec: "WriteFile now c (Join (tl (Split path))) data perm t = (err, c', t1)"
        by (cases "WriteFile now c (Join (tl (Split path))) data perm t") auto
      from "1.prems" have res: "err = None" "f' = set_dir f (hd (Split path)) c'" "t' = t1"
        by (simp_all add: WriteFile_child [OF many Some rec])
      have ne: "hd (Split path) \<noteq> []"
        using hd_butlast [OF many] "1.prems"(2) by metis
      have "[] \<notin> set (butlast (Split (Join (tl (Split path)))))"
        using butlast_rest [OF many] "1.prems"(2) by blast
      then have "getFile c' (Join (tl (Split path))) =
         Inr \<lparr>file.info = \<lparr>name = last (Split (Join (tl (Split path)))),
                            size_bytes = int (length data),
                          modified = now t, isDir = False, mode = perm\<rparr>,
            content = data, reader = Some (NewReader data)\<rparr> \<and> t1 = Suc t"
        using "1.IH" [OF refl many _ refl, of c' t1] Some rec res
        by (simp add: index_dirs_def)
      moreover have "getFile f' path = getFile c' (Join (tl (Split path)))"
        using res by (intro getFile_child [OF many ne]) (simp add: set_dir_def)
      ultimately show ?thesis using res by (simp add: last_rest [OF many])
    qed
  qed
qed

lemma take_drop_length: "take n ys @ drop (length (take n ys)) ys = ys"
  by (cases "n \<le> length ys") (simp_all add: min_def)

lemma ReadAll_from_file:
  "ReadAll_from (FileHandle (f\<lparr>reader := Some \<lparr>s_bytes = bs, i_pos = k\<rparr>\<rparr>)) acc =
     Inr (acc @ drop k bs)"
proof (induction "length bs - k" arbitrary: k acc rule: less_induct)
  case less
  show ?case
  proof (cases "length bs \<le> k")
    case True
    then show ?thesis
      by (subst ReadAll_from.simps) (simp add: Read_def file_Read_def)
  next
    case False
    let ?chunk = "take 512 (drop k bs)"
    have pos: "0 < length ?chunk" using False by simp
    have eq: "?chunk @ drop (k + length ?chunk) bs = drop k bs"
    proof -
      have "drop (k + length ?chunk) bs = drop (length ?chunk) (drop k bs)"
        by (simp add: add.commute)
      then show ?thesis
        using take_drop_length [of 512 "drop k bs"] by (simp only:)
    qed
    have "ReadAll_from (FileHandle (f\<lparr>reader := Some \<lparr>s_bytes = bs, i_pos = k\<rparr>\<rparr>)) acc =
          ReadAll_from
            (FileHandle (f\<lparr>reader := Some \<lparr>s_bytes = bs, i_pos = k + length ?chunk\<rparr>\<rparr>))
            (acc @ ?chunk)"
      using False by (subst ReadAll_from.simps) (simp add: Read_def file_Read_def Let_def)
    also have "\<dots> = Inr ((acc @ ?chunk) @ drop (k + length ?chunk) bs)"
      using pos False by (intro less) simp
    finally show ?thesis using eq by (simp only: append_assoc)
  qed
qed

lemma ReadAll_file:
  "ReadAll (FileHandle \<lparr>file.info = fi, content = c, reader = Some (NewReader data)\<rparr>) = Inr data"
  using ReadAll_from_file
    [where f = "\<lparr>file.info = fi, content = c, reader = Some (NewReader data)\<rparr>"
       and bs = data and k = 0 and acc = "[]"]
  by (simp add: ReadAll_def NewReader_def)

lemma root_file2_eq:
  "root_file2 =
     Dir \<lparr>name = ''.'', size_bytes = 256, modified = 1000, isDir = True, mode = 448\<rparr>
       fmempty
       (fmupd []
          \<lparr>file.info = \<lparr>name = [], size_bytes = 2, modified = 1002, isDir = False,
                         mode = 384\<rparr>,
             content = [8, 9], reader = None\<rparr>
          fmempty)"
  by (simp add: root_file2_def root_file_eq WriteFile.simps set_file_def ticks_def)

lemma cleanse_segments:
  assumes "cleanse path \<noteq> []"
  shows "Split (cleanse path) = filter (\<lambda>p. p \<noteq> [] \<and> p \<noteq> ''.'') (Split path)"
proof -
  let ?ps = "filter (\<lambda>p. p \<noteq> [] \<and> p \<noteq> ''.'') (Split path)"
  have "?ps \<noteq> []" using assms by (auto simp: cleanse_def)
  moreover have "\<forall>p \<in> set ?ps. CHR ''/'' \<notin> set p"
    using Split_no_sep [of _ path] by auto
  ultimately show ?thesis
    unfolding cleanse_def by (rule Split_Join)
qed

lemma cleanse_no_empty: "cleanse path \<noteq> [] \<Longrightarrow> [] \<notin> set (Split (cleanse path))"
  by (simp add: cleanse_segments)

lemma cleanse_not_dot: "cleanse path \<noteq> ''.''"
proof
  assume dot: "cleanse path = ''.''"
  then have "cleanse path \<noteq> []" by simp
  then have "''.'' \<notin> set (Split (cleanse path))" by (simp add: cleanse_segments)
  with dot show False by simp
qed

lemma root_an_write:
  "WriteFile ticks root_a ''a/n.txt'' [0, 255, 0] 420 3 = (None, root_an, 4)"
  by (simp add: WriteFile.simps root_a_dir_a dir_a_def root_an_def file_n_def set_file_def
      set_dir_def index_dirs_def ticks_def)

lemma root_an_open:
  "Open root_an ''a/n.txt'' = Inr (FileHandle (file_n\<lparr>reader := Some (NewReader [0, 255, 0])\<rparr>))"
  by (simp add: Open_def getFile.simps getDir.simps root_an_def file_n_def)

text \<open>
  Claim C3, amended.  Let a write succeed, on a path that is not the root path.  Then
  opening the same path in the tree the write leaves returns a file handle whose content
  is the data written and whose reader is a fresh reader of that data, so that its full
  read is the data written, whatever the bytes.  For the methods of the directory node the path
  is as \<^verbatim>\<open>cleanse\<close> leaves a path that is not the root path: not empty, not \<^verbatim>\<open>.\<close>, and
  with no empty segment before the last; for the methods of \<^verbatim>\<open>FS\<close> the path is any path
  that does not cleanse to the empty path.
\<close>

theorem Open_after_WriteFile:
  "(WriteFile now f nm data perm t = (None, f', t') \<and>
    nm \<noteq> [] \<and> nm \<noteq> ''.'' \<and> [] \<notin> set (butlast (Split nm)) \<longrightarrow>
      (\<exists>fi. Open f' nm =
              Inr (FileHandle \<lparr>file.info = fi, content = data, reader = Some (NewReader data)\<rparr>) \<and>
            ReadAll (FileHandle \<lparr>file.info = fi, content = data, reader = Some (NewReader data)\<rparr>) =
              Inr data)) \<and>
   (FS_WriteFile now m path data perm t = (None, m', t') \<and> cleanse path \<noteq> [] \<longrightarrow>
      (\<exists>fi. FS_Open m' path =
              Inr (FileHandle \<lparr>file.info = fi, content = data, reader = Some (NewReader data)\<rparr>) \<and>
            ReadAll (FileHandle \<lparr>file.info = fi, content = data, reader = Some (NewReader data)\<rparr>) =
              Inr data))"
proof (intro conjI impI; elim conjE)
  assume w: "WriteFile now f nm data perm t = (None, f', t')"
    and root: "nm \<noteq> []" "nm \<noteq> ''.''" and segs: "[] \<notin> set (butlast (Split nm))"
  from getFile_WriteFile [OF w segs] root
  show "\<exists>fi. Open f' nm =
              Inr (FileHandle \<lparr>file.info = fi, content = data, reader = Some (NewReader data)\<rparr>) \<and>
            ReadAll (FileHandle \<lparr>file.info = fi, content = data, reader = Some (NewReader data)\<rparr>) =
              Inr data"
    by (simp add: Open_def ReadAll_file)
next
  assume w: "FS_WriteFile now m path data perm t = (None, m', t')"
    and root: "cleanse path \<noteq> []"
  from w have w': "WriteFile now (dir m) (cleanse path) data perm t = (None, dir m', t')"
    by (auto simp: FS_WriteFile_def split: prod.splits)
  have "[] \<notin> set (butlast (Split (cleanse path)))"
    using cleanse_no_empty [OF root] by (meson in_set_butlastD)
  from getFile_WriteFile [OF w' this] root cleanse_not_dot [of path]
  show "\<exists>fi. FS_Open m' path =
              Inr (FileHandle \<lparr>file.info = fi, content = data, reader = Some (NewReader data)\<rparr>) \<and>
            ReadAll (FileHandle \<lparr>file.info = fi, content = data, reader = Some (NewReader data)\<rparr>) =
              Inr data"
    by (simp add: FS_Open_def Open_def ReadAll_file)
qed

theorem Open_after_WriteFile_witness:
  "WriteFile ticks root_a ''a/n.txt'' [0, 255, 0] 420 3 = (None, root_an, 4) \<and>
   [] \<notin> set (butlast (Split ''a/n.txt'')) \<and>
   Open root_an ''a/n.txt'' =
     Inr (FileHandle (file_n\<lparr>reader := Some (NewReader [0, 255, 0])\<rparr>)) \<and>
   ReadAll (FileHandle (file_n\<lparr>reader := Some (NewReader [0, 255, 0])\<rparr>)) = Inr [0, 255, 0] \<and>
   FS_WriteFile ticks \<lparr>dir = root_a\<rparr> ''/a/n.txt'' [0, 255, 0] 420 3 =
     (None, \<lparr>dir = root_an\<rparr>, 4) \<and>
   cleanse ''/a/n.txt'' = ''a/n.txt'' \<and>
   FS_Open \<lparr>dir = root_an\<rparr> ''/a/n.txt'' =
     Inr (FileHandle (file_n\<lparr>reader := Some (NewReader [0, 255, 0])\<rparr>))"
  using Open_after_WriteFile
    [where now = ticks and f = root_a and nm = "''a/n.txt''" and data = "[0, 255, 0]"
       and perm = 420 and t = 3 and f' = root_an and t' = 4 and m = "\<lparr>dir = root_a\<rparr>"
       and path = "''/a/n.txt''" and m' = "\<lparr>dir = root_an\<rparr>"]
    root_an_write root_an_open
  by (auto simp: FS_WriteFile_def FS_Open_def cleanse_def)

text \<open>
  Against claim C3 as stated: a write to the root path succeeds and stores a file entry
  with the empty name in the root; opening the root path then returns the root
  directory, and the full read of that handle is an error, not the data.
\<close>

theorem Open_after_WriteFile_counterexample:
  "WriteFile ticks root0 [] [7] 420 1 = (None, root_file, 2) \<and>
   Open root_file [] = Inr (DirHandle root_file) \<and>
   FS_WriteFile ticks (fst (New ticks 0)) [] [7] 420 1 = (None, \<lparr>dir = root_file\<rparr>, 2) \<and>
   FS_Open \<lparr>dir = root_file\<rparr> [] = Inr (DirHandle root_file) \<and>
   ReadAll (DirHandle root_file) = Inl (Errorf ''cannot read directory'' None)"
  by (simp add: FS_WriteFile_def FS_Open_def New_def cleanse_def Open_def WriteFile.simps
      root_file_eq root0_eq set_file_def ticks_def ReadAll_def ReadAll_from.simps Read_def
      dir_Read_def)

subsection \<open>Writing twice\<close>

lemma WriteFile_overwrite:
  "WriteFile now f path c1 p1 t = (None, f1, t1) \<Longrightarrow>
     WriteFile now' f1 path c2 p2 s = WriteFile now' f path c2 p2 s"
proof (induction now f path c1 p1 t arbitrary: f1 t1 rule: WriteFile.induct)
  case (1 now f path c1 p1 t)
  show ?case
  proof (cases "length (Split path) = 1")
    case True
    with "1.prems" show ?thesis
      by (auto simp: WriteFile_last set_file_def)
  next
    case many: False
    show ?thesis
    proof (cases "fmlookup (dirs f) (hd (Split path))")
      case None
      with many "1.prems" show ?thesis
        by (simp add: WriteFile_no_child)
    next
      case (Some c)
      obtain err c' t' where
        rec: "WriteFile now c (Join (tl (Split path))) c1 p1 t = (err, c', t')"
        by (cases "WriteFile now c (Join (tl (Split path))) c1 p1 t") auto
      from "1.prems" have res: "err = None" "f1 = set_dir f (hd (Split path)) c'" "t1 = t'"
        by (simp_all add: WriteFile_child [OF many Some rec])
      have ih: "WriteFile now' c' (Join (tl (Split path))) c2 p2 s =
                WriteFile now' c (Join (tl (Split path))) c2 p2 s"
        using "1.IH" [OF refl many _ refl, of c' t'] Some rec res
        by (simp add: index_dirs_def)
      obtain err2 c2' s' where
        rec2: "WriteFile now' c (Join (tl (Split path))) c2 p2 s = (err2, c2', s')"
        by (cases "WriteFile now' c (Join (tl (Split path))) c2 p2 s") auto
      have c': "fmlookup (dirs f1) (hd (Split path)) = Some c'"
        using res by (simp add: set_dir_def)
      have "WriteFile now' f1 path c2 p2 s = (err2, set_dir f1 (hd (Split path)) c2', s')"
        using ih rec2 by (intro WriteFile_child [OF many c']) simp
      moreover have "WriteFile now' f path c2 p2 s = (err2, set_dir f (hd (Split path)) c2', s')"
        by (rule WriteFile_child [OF many Some rec2])
      moreover have "set_dir f1 (hd (Split path)) c2' = set_dir f (hd (Split path)) c2'"
        using res by (simp add: set_dir_def)
      ultimately show ?thesis by simp
    qed
  qed
qed

text \<open>
  Claim C6, amended.  Let two writes to one path succeed in succession, with contents
  \<open>c1\<close> then \<open>c2\<close>.  The tree they leave is the tree that the second write alone leaves
  when it is applied to the tree before the first write: nothing of the first write
  remains.  If the path is not the root path (and is as \<^verbatim>\<open>cleanse\<close> leaves a path),
  opening it returns the file handle with the content \<open>c2\<close> and the metadata of the
  second write, and the full read of that handle is \<open>c2\<close>.
\<close>

theorem WriteFile_replaces:
  "(WriteFile now f nm c1 perm1 t = (None, f1, t1) \<and>
    WriteFile now f1 nm c2 perm2 t1 = (None, f2, t2) \<longrightarrow>
      WriteFile now f nm c2 perm2 t1 = (None, f2, t2) \<and>
      (nm \<noteq> [] \<and> nm \<noteq> ''.'' \<and> [] \<notin> set (butlast (Split nm)) \<longrightarrow>
         Open f2 nm =
           Inr (FileHandle
                  \<lparr>file.info = \<lparr>name = last (Split nm), size_bytes = int (length c2),
                                 modified = now t1, isDir = False, mode = perm2\<rparr>,
                   content = c2, reader = Some (NewReader c2)\<rparr>) \<and>
         ReadAll
           (FileHandle
              \<lparr>file.info = \<lparr>name = last (Split nm), size_bytes = int (length c2),
                             modified = now t1, isDir = False, mode = perm2\<rparr>,
               content = c2, reader = Some (NewReader c2)\<rparr>) = Inr c2)) \<and>
   (FS_WriteFile now m path c1 perm1 t = (None, m1, t1) \<and>
    FS_WriteFile now m1 path c2 perm2 t1 = (None, m2, t2) \<longrightarrow>
      FS_WriteFile now m path c2 perm2 t1 = (None, m2, t2) \<and>
      (cleanse path \<noteq> [] \<longrightarrow>
         FS_Open m2 path =
           Inr (FileHandle
                  \<lparr>file.info = \<lparr>name = last (Split (cleanse path)),
                                 size_bytes = int (length c2), modified = now t1,
                                 isDir = False, mode = perm2\<rparr>,
                   content = c2, reader = Some (NewReader c2)\<rparr>) \<and>
         ReadAll
           (FileHandle
              \<lparr>file.info = \<lparr>name = last (Split (cleanse path)),
                             size_bytes = int (length c2), modified = now t1,
                             isDir = False, mode = perm2\<rparr>,
               content = c2, reader = Some (NewReader c2)\<rparr>) = Inr c2))"
proof -
  have node: "WriteFile now g p c2 perm2 t1 = (None, g2, t2) \<and>
      (p \<noteq> [] \<and> p \<noteq> ''.'' \<and> [] \<notin> set (butlast (Split p)) \<longrightarrow>
         Open g2 p =
           Inr (FileHandle
                  \<lparr>file.info = \<lparr>name = last (Split p), size_bytes = int (length c2),
                                 modified = now t1, isDir = False, mode = perm2\<rparr>,
                   content = c2, reader = Some (NewReader c2)\<rparr>))"
    if w1: "WriteFile now g p c1 perm1 t = (None, g1, t1)"
      and w2: "WriteFile now g1 p c2 perm2 t1 = (None, g2, t2)" for g g1 g2 p
  proof (intro conjI impI; (elim conjE)?)
    show "WriteFile now g p c2 perm2 t1 = (None, g2, t2)"
      using WriteFile_overwrite [OF w1, of now c2 perm2 t1] w2 by simp
    show "Open g2 p =
           Inr (FileHandle
                  \<lparr>file.info = \<lparr>name = last (Split p), size_bytes = int (length c2),
                                 modified = now t1, isDir = False, mode = perm2\<rparr>,
                   content = c2, reader = Some (NewReader c2)\<rparr>)"
      if "p \<noteq> []" "p \<noteq> ''.''" "[] \<notin> set (butlast (Split p))"
      using getFile_WriteFile [OF w2 that(3)] that(1,2) by (simp add: Open_def)
  qed
  show ?thesis
  proof (intro conjI impI; (elim conjE)?)
    assume w: "WriteFile now f nm c1 perm1 t = (None, f1, t1)"
      "WriteFile now f1 nm c2 perm2 t1 = (None, f2, t2)"
    from node [OF w] show "WriteFile now f nm c2 perm2 t1 = (None, f2, t2)" by simp
    from node [OF w]
    show "Open f2 nm =
           Inr (FileHandle
                  \<lparr>file.info = \<lparr>name = last (Split nm), size_bytes = int (length c2),
                                 modified = now t1, isDir = False, mode = perm2\<rparr>,
                   content = c2, reader = Some (NewReader c2)\<rparr>)"
      if "nm \<noteq> []" "nm \<noteq> ''.''" "[] \<notin> set (butlast (Split nm))"
      using that by simp
  next
    assume w: "FS_WriteFile now m path c1 perm1 t = (None, m1, t1)"
      "FS_WriteFile now m1 path c2 perm2 t1 = (None, m2, t2)"
    then have w': "WriteFile now (dir m) (cleanse path) c1 perm1 t = (None, dir m1, t1)"
      "WriteFile now (dir m1) (cleanse path) c2 perm2 t1 = (None, dir m2, t2)"
      by (auto simp: FS_WriteFile_def split: prod.splits)
    from node [OF w'] show "FS_WriteFile now m path c2 perm2 t1 = (None, m2, t2)"
      by (simp add: FS_WriteFile_def)
    show "FS_Open m2 path =
           Inr (FileHandle
                  \<lparr>file.info = \<lparr>name = last (Split (cleanse path)),
                                 size_bytes = int (length c2), modified = now t1,
                                 isDir = False, mode = perm2\<rparr>,
                   content = c2, reader = Some (NewReader c2)\<rparr>)"
      if root: "cleanse path \<noteq> []"
    proof -
      have "[] \<notin> set (butlast (Split (cleanse path)))"
        using cleanse_no_empty [OF root] by (meson in_set_butlastD)
      with node [OF w'] root cleanse_not_dot [of path] show ?thesis
        by (simp add: FS_Open_def)
    qed
  qed (rule ReadAll_file)+
qed

theorem WriteFile_replaces_witness:
  "WriteFile ticks root_a ''a/n.txt'' [1] 384 2 = (None, root_an1, 3) \<and>
   WriteFile ticks root_an1 ''a/n.txt'' [0, 255, 0] 420 3 = (None, root_an, 4) \<and>
   WriteFile ticks root_a ''a/n.txt'' [0, 255, 0] 420 3 = (None, root_an, 4) \<and>
   Open root_an ''a/n.txt'' =
     Inr (FileHandle (file_n\<lparr>reader := Some (NewReader [0, 255, 0])\<rparr>)) \<and>
   ReadAll (FileHandle (file_n\<lparr>reader := Some (NewReader [0, 255, 0])\<rparr>)) = Inr [0, 255, 0] \<and>
   FS_WriteFile ticks \<lparr>dir = root_a\<rparr> ''/a/n.txt'' [1] 384 2 = (None, \<lparr>dir = root_an1\<rparr>, 3) \<and>
   FS_WriteFile ticks \<lparr>dir = root_an1\<rparr> ''/a/n.txt'' [0, 255, 0] 420 3 =
     (None, \<lparr>dir = root_an\<rparr>, 4) \<and>
   FS_WriteFile ticks \<lparr>dir = root_a\<rparr> ''/a/n.txt'' [0, 255, 0] 420 3 =
     (None, \<lparr>dir = root_an\<rparr>, 4) \<and>
   FS_Open \<lparr>dir = root_an\<rparr> ''/a/n.txt'' =
     Inr (FileHandle (file_n\<lparr>reader := Some (NewReader [0, 255, 0])\<rparr>))"
  using WriteFile_replaces
    [where now = ticks and f = root_a and nm = "''a/n.txt''" and ?c1.0 = "[1]" and ?perm1.0 = 384
       and t = 2 and ?f1.0 = root_an1 and ?t1.0 = 3 and ?c2.0 = "[0, 255, 0]" and ?perm2.0 = 420
       and ?f2.0 = root_an and ?t2.0 = 4 and m = "\<lparr>dir = root_a\<rparr>" and path = "''/a/n.txt''"
       and ?m1.0 = "\<lparr>dir = root_an1\<rparr>" and ?m2.0 = "\<lparr>dir = root_an\<rparr>"]
  by (simp add: WriteFile.simps FS_WriteFile_def cleanse_def root_a_dir_a dir_a_def root_an_def
      root_an1_def file_n_def set_file_def set_dir_def index_dirs_def ticks_def NewReader_def)

text \<open>
  Against claim C6 as stated: two writes to the root path succeed, and opening the root
  path afterwards returns the root directory, whose full read is an error.
\<close>

theorem WriteFile_replaces_counterexample:
  "FS_WriteFile ticks (fst (New ticks 0)) ''.'' [7] 420 1 = (None, \<lparr>dir = root_file\<rparr>, 2) \<and>
   FS_WriteFile ticks \<lparr>dir = root_file\<rparr> ''.'' [8, 9] 384 2 = (None, \<lparr>dir = root_file2\<rparr>, 3) \<and>
   FS_Open \<lparr>dir = root_file2\<rparr> ''.'' = Inr (DirHandle root_file2) \<and>
   ReadAll (DirHandle root_file2) = Inl (Errorf ''cannot read directory'' None)"
  by (simp add: FS_WriteFile_def FS_Open_def New_def cleanse_def Open_def WriteFile.simps
      root_file_eq root_file2_eq root0_eq set_file_def ticks_def ReadAll_def
      ReadAll_from.simps Read_def dir_Read_def)

subsection \<open>Steps of directory creation\<close>

declare collides.simps [simp del]

lemma MkdirAll_file:
  "fmlookup (files f) (hd (Split path)) \<noteq> None \<Longrightarrow>
     MkdirAll now f path perm t = (Some ErrExist, f, t)"
  by (subst MkdirAll.simps) (simp add: Let_def)

lemma MkdirAll_last:
  "fmlookup (files f) (hd (Split path)) = None \<Longrightarrow> length (Split path) = 1 \<Longrightarrow>
     MkdirAll now f path perm t =
       (None, fst (ensure_dir now f (hd (Split path)) perm t),
        snd (ensure_dir now f (hd (Split path)) perm t))"
  by (subst MkdirAll.simps) (simp add: Let_def ensure_dir_def set_modified_def)

lemma MkdirAll_child:
  "fmlookup (files f) (hd (Split path)) = None \<Longrightarrow> length (Split path) \<noteq> 1 \<Longrightarrow>
     ensure_dir now f (hd (Split path)) perm t = (f2, t2) \<Longrightarrow>
     MkdirAll now (index_dirs f2 (hd (Split path))) (Join (tl (Split path))) perm t2 =
       (err, c', t3) \<Longrightarrow>
     MkdirAll now f path perm t = (err, set_dir f2 (hd (Split path)) c', t3)"
  by (subst MkdirAll.simps)
    (auto simp: Let_def ensure_dir_def set_modified_def split: if_splits)

lemma ensure_dir_files: "ensure_dir now f p perm t = (f2, t2) \<Longrightarrow> files f2 = files f"
  by (auto simp: ensure_dir_def set_dir_def set_modified_def split: if_splits)



lemma ensure_dir_old:
  "fmlookup (dirs f) p = Some c \<Longrightarrow>
     ensure_dir now f p perm t = (set_modified f (now t), Suc t)"
  by (simp add: ensure_dir_def)


lemma index_dirs_ensure:
  "ensure_dir now f p perm t = (f2, t2) \<Longrightarrow>
     index_dirs f2 p =
       (case fmlookup (dirs f) p of
          Some c \<Rightarrow> c
        | None \<Rightarrow>
            Dir \<lparr>name = p, size_bytes = 256, modified = now (Suc t), isDir = True, mode = perm\<rparr>
              fmempty fmempty)"
  by (auto simp: ensure_dir_def index_dirs_def set_dir_def set_modified_def
      split: if_splits option.splits)

lemma collides_empty: "\<not> collides (Dir fi fmempty fmempty) path"
  by (subst collides.simps) (simp add: Let_def)

lemma collides_file: "fmlookup (files f) (hd (Split path)) \<noteq> None \<Longrightarrow> collides f path"
  by (subst collides.simps) (simp add: Let_def)

lemma collides_last:
  "fmlookup (files f) (hd (Split path)) = None \<Longrightarrow> length (Split path) = 1 \<Longrightarrow>
     \<not> collides f path"
  by (subst collides.simps) (simp add: Let_def)

lemma collides_child:
  "fmlookup (files f) (hd (Split path)) = None \<Longrightarrow> length (Split path) \<noteq> 1 \<Longrightarrow>
     collides f path =
       (case fmlookup (dirs f) (hd (Split path)) of
          None \<Rightarrow> False
        | Some c \<Rightarrow> collides c (Join (tl (Split path))))"
  by (subst collides.simps) (simp add: Let_def)


lemma MkdirAll_steps [case_names step]:
  assumes "\<And>now f path perm t.
     (\<And>f2 t2. fmlookup (files f) (hd (Split path)) = None \<Longrightarrow> length (Split path) \<noteq> 1 \<Longrightarrow>
        ensure_dir now f (hd (Split path)) perm t = (f2, t2) \<Longrightarrow>
        P now (index_dirs f2 (hd (Split path))) (Join (tl (Split path))) perm t2) \<Longrightarrow>
     P now f path perm t"
  shows "P now f path perm t"
proof (induction now f path perm t rule: MkdirAll.induct)
  case (1 now f path perm t)
  show ?case
  proof (rule assms)
    fix f2 t2
    assume nofile: "fmlookup (files f) (hd (Split path)) = None"
      and many: "length (Split path) \<noteq> 1"
      and ens: "ensure_dir now f (hd (Split path)) perm t = (f2, t2)"
    have "(f2, t2) =
            (if fmlookup (dirs (set_modified f (now t))) (hd (Split path)) = None then
               (set_dir (set_modified f (now t)) (hd (Split path))
                  (Dir \<lparr>name = hd (Split path), size_bytes = 256, modified = now (Suc t),
                        isDir = True, mode = perm\<rparr> fmempty fmempty),
                Suc (Suc t))
             else (set_modified f (now t), Suc t))"
      using ens by (simp add: ensure_dir_def set_modified_def)
    then show "P now (index_dirs f2 (hd (Split path))) (Join (tl (Split path))) perm t2"
      using nofile many by (intro "1.IH" [OF refl _ refl refl refl _ _ refl]) simp_all
  qed
qed

lemma MkdirAll_error_iff:
  "MkdirAll now f path perm t = (err, f', t') \<Longrightarrow>
     (err = None \<longleftrightarrow> \<not> collides f path) \<and> (err \<noteq> None \<longrightarrow> err = Some ErrExist)"
proof (induction now f path perm t arbitrary: err f' t' rule: MkdirAll_steps)
  case (step now f path perm t)
  let ?p = "hd (Split path)"
  show ?case
  proof (cases "fmlookup (files f) ?p = None")
    case False
    with step.prems show ?thesis
      by (auto simp: MkdirAll_file collides_file)
  next
    case nofile: True
    show ?thesis
    proof (cases "length (Split path) = 1")
      case True
      with nofile step.prems show ?thesis
        by (auto simp: MkdirAll_last collides_last)
    next
      case many: False
      obtain f2 t2 where ens: "ensure_dir now f ?p perm t = (f2, t2)"
        by (cases "ensure_dir now f ?p perm t") auto
      obtain e c' t3 where
        rec: "MkdirAll now (index_dirs f2 ?p) (Join (tl (Split path))) perm t2 = (e, c', t3)"
        by (cases "MkdirAll now (index_dirs f2 ?p) (Join (tl (Split path))) perm t2") auto
      from step.prems have res: "err = e"
        by (simp add: MkdirAll_child [OF nofile many ens rec])
      have ih: "(e = None \<longleftrightarrow> \<not> collides (index_dirs f2 ?p) (Join (tl (Split path)))) \<and>
                (e \<noteq> None \<longrightarrow> e = Some ErrExist)"
        by (rule step.IH [OF nofile many ens rec])
      show ?thesis
        using ih res index_dirs_ensure [OF ens] collides_child [OF nofile many]
        by (auto simp: collides_empty split: option.splits)
    qed
  qed
qed

lemma files_set_dir: "files (set_dir f k c) = files f"
  by (simp add: set_dir_def)

lemma dirs_set_dir: "dirs (set_dir f k c) = fmupd k c (dirs f)"
  by (simp add: set_dir_def)


lemma MkdirAll_no_collision_after:
  "MkdirAll now f path perm t = (None, f', t') \<Longrightarrow> \<not> collides f' path"
proof (induction now f path perm t arbitrary: f' t' rule: MkdirAll_steps)
  case (step now f path perm t)
  let ?p = "hd (Split path)"
  have nofile: "fmlookup (files f) ?p = None"
    using step.prems by (cases "fmlookup (files f) ?p") (auto simp: MkdirAll_file)
  obtain f2 t2 where ens: "ensure_dir now f ?p perm t = (f2, t2)"
    by (cases "ensure_dir now f ?p perm t") auto
  show ?case
  proof (cases "length (Split path) = 1")
    case True
    from step.prems have "f' = f2"
      by (simp add: MkdirAll_last [OF nofile True] ens)
    then show ?thesis
      using ensure_dir_files [OF ens] nofile True by (simp add: collides_last)
  next
    case many: False
    obtain e c' t3 where
      rec: "MkdirAll now (index_dirs f2 ?p) (Join (tl (Split path))) perm t2 = (e, c', t3)"
      by (cases "MkdirAll now (index_dirs f2 ?p) (Join (tl (Split path))) perm t2") auto
    from step.prems have res: "e = None" "f' = set_dir f2 ?p c'"
      by (simp_all add: MkdirAll_child [OF nofile many ens rec])
    have "\<not> collides c' (Join (tl (Split path)))"
      using step.IH [OF nofile many ens] rec res by simp
    moreover have nofile': "fmlookup (files f') ?p = None"
      using res ensure_dir_files [OF ens] nofile by (simp add: files_set_dir)
    ultimately show ?thesis
      using res collides_child [OF nofile' many] by (simp add: dirs_set_dir)
  qed
qed


subsection \<open>The example trees\<close>

lemmas eval_defs = set_modified_def set_dir_def set_file_def index_dirs_def ticks_def

lemma root_a_mkdir: "MkdirAll ticks root0 ''a'' 448 1 = (None, root_a, 3)"
  by (simp add: MkdirAll.simps root0_eq root_a_eq eval_defs)

lemma root_ab_mkdir: "MkdirAll ticks root0 ''a/b'' 448 1 = (None, root_ab, 5)"
  by (simp add: MkdirAll.simps root0_eq root_ab_def dir_b_def eval_defs)

lemma root_ab2_mkdir: "MkdirAll ticks root_ab ''a/b'' 448 5 = (None, root_ab2, 7)"
  by (simp add: MkdirAll.simps root_ab_def root_ab2_def dir_b_def eval_defs)

lemma root_afb_write: "WriteFile ticks root_a ''a/b'' [1] 420 3 = (None, root_afb, 4)"
  by (simp add: WriteFile.simps root_a_dir_a dir_a_def root_afb_def file_b_def eval_defs)

lemma root_afb_mkdir: "MkdirAll ticks root_afb ''a/b'' 448 4 = (Some ErrExist, root_afb_touched, 5)"
  by (simp add: MkdirAll.simps root_afb_def root_afb_touched_def file_b_def eval_defs)

lemma root_clash_write: "WriteFile ticks root_a ''a'' [1] 420 3 = (None, root_clash, 4)"
  by (simp add: WriteFile.simps root_a_dir_a root_clash_def eval_defs)

subsection \<open>Creating a directory path twice\<close>

text \<open>
  Claim C5.  If no segment of the path collides with an existing file, \<^verbatim>\<open>MkdirAll\<close>
  succeeds, and a second \<^verbatim>\<open>MkdirAll\<close> of the same path on the tree it leaves succeeds as
  well.  \<^verbatim>\<open>MkdirAll\<close> has no error but the already-exists error, and it has that error
  only when a segment collides with a file: a segment that exists as a directory is no
  error.
\<close>

theorem MkdirAll_twice:
  "(\<not> collides f path \<longrightarrow>
      (\<exists>f1 t1 f2 t2.
         MkdirAll now f path perm t = (None, f1, t1) \<and>
         MkdirAll now f1 path perm' t1 = (None, f2, t2))) \<and>
   (\<forall>e f' t'. MkdirAll now f path perm t = (Some e, f', t') \<longrightarrow> e = ErrExist \<and> collides f path)"
proof (intro conjI impI allI)
  assume ok: "\<not> collides f path"
  obtain e1 f1 t1 where m1: "MkdirAll now f path perm t = (e1, f1, t1)"
    by (cases "MkdirAll now f path perm t") auto
  with ok have e1: "e1 = None"
    using MkdirAll_error_iff [OF m1] by simp
  obtain e2 f2 t2 where m2: "MkdirAll now f1 path perm' t1 = (e2, f2, t2)"
    by (cases "MkdirAll now f1 path perm' t1") auto
  have "\<not> collides f1 path"
    using m1 e1 by (auto dest: MkdirAll_no_collision_after)
  then have "e2 = None"
    using MkdirAll_error_iff [OF m2] by simp
  with m1 e1 m2 show "\<exists>f1 t1 f2 t2.
         MkdirAll now f path perm t = (None, f1, t1) \<and>
         MkdirAll now f1 path perm' t1 = (None, f2, t2)" by simp
next
  fix e f' t'
  assume "MkdirAll now f path perm t = (Some e, f', t')"
  from MkdirAll_error_iff [OF this] show "e = ErrExist" "collides f path" by simp_all
qed

theorem MkdirAll_twice_witness:
  "\<not> collides root0 ''a/b'' \<and>
   MkdirAll ticks root0 ''a/b'' 448 1 = (None, root_ab, 5) \<and>
   MkdirAll ticks root_ab ''a/b'' 448 5 = (None, root_ab2, 7) \<and>
   MkdirAll ticks root_afb ''a/b'' 448 4 = (Some ErrExist, root_afb_touched, 5) \<and>
   collides root_afb ''a/b''"
  using MkdirAll_twice [of root0 "''a/b''" ticks 448 1 448]
    MkdirAll_twice [of root_afb "''a/b''" ticks 448 4 448]
    root_ab_mkdir root_ab2_mkdir root_afb_mkdir
  by (simp add: collides.simps root0_eq)

subsection \<open>Failed calls\<close>

lemma erase_modified_eq:
  "erase_modified f = Dir ((dir.info f)\<lparr>modified := 0\<rparr>) (fmmap erase_modified (dirs f)) (files f)"
  by (cases f) simp

lemma fmupd_same: "fmlookup m k = Some v \<Longrightarrow> fmupd k v m = m"
  by (auto intro!: fmap_ext)

lemma MkdirAll_error_structure:
  "MkdirAll now f path perm t = (Some e, f', t') \<Longrightarrow> erase_modified f' = erase_modified f"
proof (induction now f path perm t arbitrary: f' t' rule: MkdirAll_steps)
  case (step now f path perm t)
  let ?p = "hd (Split path)"
  show ?case
  proof (cases "fmlookup (files f) ?p = None")
    case False
    with step.prems show ?thesis by (simp add: MkdirAll_file)
  next
    case nofile: True
    obtain f2 t2 where ens: "ensure_dir now f ?p perm t = (f2, t2)"
      by (cases "ensure_dir now f ?p perm t") auto
    have many: "length (Split path) \<noteq> 1"
      using step.prems nofile by (auto simp: MkdirAll_last)
    obtain err c' t3 where
      rec: "MkdirAll now (index_dirs f2 ?p) (Join (tl (Split path))) perm t2 = (err, c', t3)"
      by (cases "MkdirAll now (index_dirs f2 ?p) (Join (tl (Split path))) perm t2") auto
    from step.prems have res: "err = Some e" "f' = set_dir f2 ?p c'"
      by (simp_all add: MkdirAll_child [OF nofile many ens rec])
    have coll: "collides (index_dirs f2 ?p) (Join (tl (Split path)))"
      using MkdirAll_error_iff [OF rec] res by simp
    then obtain c where c: "fmlookup (dirs f) ?p = Some c"
      using index_dirs_ensure [OF ens] by (cases "fmlookup (dirs f) ?p") (auto simp: collides_empty)
    then have child: "index_dirs f2 ?p = c" and f2: "f2 = set_modified f (now t)"
      using index_dirs_ensure [OF ens] ens by (simp_all add: ensure_dir_old)
    have "erase_modified c' = erase_modified c"
      using step.IH [OF nofile many ens] rec res child by simp
    then show ?thesis
      using res f2 c
      by (simp add: erase_modified_eq [of f] erase_modified_eq [of "set_dir _ _ _"]
          set_dir_def set_modified_def fmmap_fmupd fmupd_same)
  qed
qed

lemma MkdirAll_error_off_path:
  "MkdirAll now f path perm t = (Some e, f', t') \<Longrightarrow>
     \<forall>k < length (Split path). qs \<noteq> take k (Split path) \<Longrightarrow> walk f' qs = walk f qs"
proof (induction now f path perm t arbitrary: f' t' qs rule: MkdirAll_steps)
  case (step now f path perm t)
  let ?p = "hd (Split path)"
  show ?case
  proof (cases "fmlookup (files f) ?p = None")
    case False
    with step.prems(1) show ?thesis by (simp add: MkdirAll_file)
  next
    case nofile: True
    obtain f2 t2 where ens: "ensure_dir now f ?p perm t = (f2, t2)"
      by (cases "ensure_dir now f ?p perm t") auto
    have many: "length (Split path) \<noteq> 1"
      using step.prems(1) nofile by (auto simp: MkdirAll_last)
    obtain err c' t3 where
      rec: "MkdirAll now (index_dirs f2 ?p) (Join (tl (Split path))) perm t2 = (err, c', t3)"
      by (cases "MkdirAll now (index_dirs f2 ?p) (Join (tl (Split path))) perm t2") auto
    from step.prems(1) have res: "err = Some e" "f' = set_dir f2 ?p c'"
      by (simp_all add: MkdirAll_child [OF nofile many ens rec])
    have coll: "collides (index_dirs f2 ?p) (Join (tl (Split path)))"
      using MkdirAll_error_iff [OF rec] res by simp
    then obtain c where c: "fmlookup (dirs f) ?p = Some c"
      using index_dirs_ensure [OF ens] by (cases "fmlookup (dirs f) ?p") (auto simp: collides_empty)
    then have child: "index_dirs f2 ?p = c" and f2: "f2 = set_modified f (now t)"
      using index_dirs_ensure [OF ens] ens by (simp_all add: ensure_dir_old)
    have parts: "Split path = ?p # tl (Split path)"
      using Split_not_Nil [of path] by simp
    have dirs': "dirs f' = fmupd ?p c' (dirs f)"
      using res f2 by (simp add: set_dir_def set_modified_def)
    show ?thesis
    proof (cases qs)
      case Nil
      with step.prems(2) parts show ?thesis
        by (metis length_greater_0_conv list.discI take_0)
    next
      case (Cons q qs')
      show ?thesis
      proof (cases "q = ?p")
        case False
        then show ?thesis using Cons dirs' by simp
      next
        case True
        have "\<forall>k < length (Split (Join (tl (Split path)))). qs' \<noteq> take k (Split (Join (tl (Split path))))"
        proof (intro allI impI)
          fix k
          assume "k < length (Split (Join (tl (Split path))))"
          then have "Suc k < length (Split path)"
            using parts by (simp add: Split_rest [OF many])
          then have "qs \<noteq> take (Suc k) (Split path)"
            using step.prems(2) by blast
          moreover have "take (Suc k) (Split path) = ?p # take k (tl (Split path))"
            using parts by (metis take_Suc_Cons)
          ultimately show "qs' \<noteq> take k (Split (Join (tl (Split path))))"
            using Cons True by (simp add: Split_rest [OF many])
        qed
        then have "walk c' qs' = walk c qs'"
          using step.IH [OF nofile many ens, of c' t3 qs'] rec res child by simp
        then show ?thesis using Cons True dirs' c by simp
      qed
    qed
  qed
qed

lemma MkdirAll_error_exact:
  "MkdirAll now f path perm t = (Some e, f', t') \<Longrightarrow>
     \<exists>n c. n < length (Split path) \<and>
       walk f (take n (Split path)) = Some c \<and>
       fmlookup (files c) (Split path ! n) \<noteq> None \<and>
       t' = t + n \<and>
       (\<forall>qs. (\<forall>k < n. qs \<noteq> take k (Split path)) \<longrightarrow> walk f' qs = walk f qs) \<and>
       (\<forall>k < n. \<exists>a a'. walk f (take k (Split path)) = Some a \<and>
          walk f' (take k (Split path)) = Some a' \<and>
          dir.info a' = (dir.info a)\<lparr>modified := now (t + k)\<rparr>)"
proof (induction now f path perm t arbitrary: f' t' rule: MkdirAll_steps)
  case (step now f path perm t)
  let ?p = "hd (Split path)"
  have parts: "Split path = ?p # tl (Split path)"
    using Split_not_Nil [of path] by simp
  show ?case
  proof (cases "fmlookup (files f) ?p = None")
    case False
    with step.prems have same: "f' = f" "t' = t" by (simp_all add: MkdirAll_file)
    have "Split path ! 0 = ?p" using parts by (metis nth_Cons_0)
    with False same Split_not_Nil [of path] show ?thesis
      by (intro exI [of _ 0] exI [of _ f]) simp
  next
    case nofile: True
    obtain f2 t2 where ens: "ensure_dir now f ?p perm t = (f2, t2)"
      by (cases "ensure_dir now f ?p perm t") auto
    have many: "length (Split path) \<noteq> 1"
      using step.prems nofile by (auto simp: MkdirAll_last)
    obtain err c' t3 where
      rec: "MkdirAll now (index_dirs f2 ?p) (Join (tl (Split path))) perm t2 = (err, c', t3)"
      by (cases "MkdirAll now (index_dirs f2 ?p) (Join (tl (Split path))) perm t2") auto
    from step.prems have res: "err = Some e" "f' = set_dir f2 ?p c'" "t' = t3"
      by (simp_all add: MkdirAll_child [OF nofile many ens rec])
    have coll: "collides (index_dirs f2 ?p) (Join (tl (Split path)))"
      using MkdirAll_error_iff [OF rec] res by simp
    then obtain c0 where c0: "fmlookup (dirs f) ?p = Some c0"
      using index_dirs_ensure [OF ens] by (cases "fmlookup (dirs f) ?p") (auto simp: collides_empty)
    then have child: "index_dirs f2 ?p = c0" and f2: "f2 = set_modified f (now t)"
      and t2: "t2 = Suc t"
      using index_dirs_ensure [OF ens] ens by (simp_all add: ensure_dir_old)
    have dirs': "dirs f' = fmupd ?p c' (dirs f)"
      using res f2 by (simp add: set_dir_def set_modified_def)
    have info': "dir.info f' = (dir.info f)\<lparr>modified := now t\<rparr>"
      using res f2 by (simp add: set_dir_def set_modified_def)
    have rest: "Split (Join (tl (Split path))) = tl (Split path)"
      by (rule Split_rest [OF many])
    from step.IH [OF nofile many ens, of c' t3] rec res child rest
    obtain n c where n: "n < length (tl (Split path))"
      and c: "walk c0 (take n (tl (Split path))) = Some c"
      and hit: "fmlookup (files c) (tl (Split path) ! n) \<noteq> None"
      and t3: "t3 = t2 + n"
      and off: "\<And>qs. (\<forall>k < n. qs \<noteq> take k (tl (Split path))) \<Longrightarrow> walk c' qs = walk c0 qs"
      and anc: "\<And>k. k < n \<Longrightarrow> \<exists>a a'. walk c0 (take k (tl (Split path))) = Some a \<and>
          walk c' (take k (tl (Split path))) = Some a' \<and>
          dir.info a' = (dir.info a)\<lparr>modified := now (t2 + k)\<rparr>"
      by auto
    have tk: "take (Suc k) (Split path) = ?p # take k (tl (Split path))" for k
      using parts by (metis take_Suc_Cons)
    have "Suc n < length (Split path)"
      using n parts by (metis length_Cons Suc_less_eq)
    moreover have "walk f (take (Suc n) (Split path)) = Some c"
      using c c0 by (simp add: tk)
    moreover have "fmlookup (files c) (Split path ! Suc n) \<noteq> None"
      using hit parts by (metis nth_Cons_Suc)
    moreover have "t' = t + Suc n"
      using res t3 t2 by simp
    moreover have "walk f' qs = walk f qs" if q: "\<forall>k < Suc n. qs \<noteq> take k (Split path)" for qs
    proof (cases qs)
      case Nil
      with q show ?thesis by (metis take_0 zero_less_Suc)
    next
      case (Cons q qs')
      show ?thesis
      proof (cases "q = ?p")
        case False
        then show ?thesis using Cons dirs' by simp
      next
        case True
        have "\<forall>k < n. qs' \<noteq> take k (tl (Split path))"
        proof (intro allI impI)
          fix k assume "k < n"
          then have "qs \<noteq> take (Suc k) (Split path)" using q by simp
          then show "qs' \<noteq> take k (tl (Split path))"
            using Cons True by (simp add: tk)
        qed
        then have "walk c' qs' = walk c0 qs'" by (rule off)
        then show ?thesis using Cons True dirs' c0 by simp
      qed
    qed
    moreover have "\<exists>a a'. walk f (take k (Split path)) = Some a \<and>
          walk f' (take k (Split path)) = Some a' \<and>
          dir.info a' = (dir.info a)\<lparr>modified := now (t + k)\<rparr>" if "k < Suc n" for k
    proof (cases k)
      case 0
      then show ?thesis using info' by simp
    next
      case (Suc k')
      with that have "k' < n" by simp
      from anc [OF this] show ?thesis
        using Suc c0 dirs' t2 by (simp add: tk)
    qed
    ultimately show ?thesis by blast
  qed
qed

text \<open>
  Claim C2, amended.  A \<^verbatim>\<open>WriteFile\<close> that returns an error returns the not-exist error
  and leaves the tree, and the clock, exactly as they were.  A \<^verbatim>\<open>MkdirAll\<close> that returns
  an error returns the already-exists error, found at the node \<open>c\<close> that the first \<open>n\<close>
  segments of the path lead to, where the next segment names a file.  No directory and no
  file entry is added.  The only metadata that changes is the modification time of the
  \<open>n\<close> directories strictly above \<open>c\<close> (the node the call starts at and those the first
  segments lead to), each set to its own clock reading; the node \<open>c\<close>, all below it and
  every node off these \<open>n\<close> are exactly as they were.  When the file is at the node the
  call starts at, the tree is exactly as it was.
\<close>

theorem failed_call:
  "(WriteFile now f path data perm t = (Some e, f', t') \<longrightarrow>
      e = ErrNotExist \<and> f' = f \<and> t' = t) \<and>
   (MkdirAll now f path perm t = (Some e, f', t') \<longrightarrow>
      e = ErrExist \<and> erase_modified f' = erase_modified f \<and>
      (\<exists>n c. n < length (Split path) \<and>
         walk f (take n (Split path)) = Some c \<and>
         fmlookup (files c) (Split path ! n) \<noteq> None \<and>
         t' = t + n \<and>
         (\<forall>qs. (\<forall>k < n. qs \<noteq> take k (Split path)) \<longrightarrow> walk f' qs = walk f qs) \<and>
         (\<forall>k < n. \<exists>a a'. walk f (take k (Split path)) = Some a \<and>
            walk f' (take k (Split path)) = Some a' \<and>
            dir.info a' = (dir.info a)\<lparr>modified := now (t + k)\<rparr>))) \<and>
   (fmlookup (files f) (hd (Split path)) \<noteq> None \<longrightarrow>
      MkdirAll now f path perm t = (Some ErrExist, f, t))"
proof (intro conjI impI)
  assume "WriteFile now f path data perm t = (Some e, f', t')"
  from WriteFile_error [OF this] show "e = ErrNotExist" "f' = f" "t' = t" by simp_all
next
  assume m: "MkdirAll now f path perm t = (Some e, f', t')"
  from MkdirAll_error_iff [OF m] show "e = ErrExist" by simp
  from m show "erase_modified f' = erase_modified f" by (rule MkdirAll_error_structure)
  from m show "\<exists>n c. n < length (Split path) \<and>
         walk f (take n (Split path)) = Some c \<and>
         fmlookup (files c) (Split path ! n) \<noteq> None \<and>
         t' = t + n \<and>
         (\<forall>qs. (\<forall>k < n. qs \<noteq> take k (Split path)) \<longrightarrow> walk f' qs = walk f qs) \<and>
         (\<forall>k < n. \<exists>a a'. walk f (take k (Split path)) = Some a \<and>
            walk f' (take k (Split path)) = Some a' \<and>
            dir.info a' = (dir.info a)\<lparr>modified := now (t + k)\<rparr>)"
    by (rule MkdirAll_error_exact)
next
  assume "fmlookup (files f) (hd (Split path)) \<noteq> None"
  then show "MkdirAll now f path perm t = (Some ErrExist, f, t)" by (rule MkdirAll_file)
qed

lemma root_afb_nodes:
  "walk root_afb [] = Some root_afb" "walk root_afb_touched [] = Some root_afb_touched"
  "walk root_afb [''a''] = Some dir_afb" "walk root_afb_touched [''a''] = Some dir_afb"
  "dir.info root_afb_touched = (dir.info root_afb)\<lparr>modified := ticks 4\<rparr>"
  "fmlookup (files dir_afb) ''b'' = Some file_b"
  by (simp_all add: root_afb_def root_afb_touched_def dir_afb_def ticks_def)

theorem failed_call_witness:
  "WriteFile ticks root_a ''x/y'' [1] 420 3 = (Some ErrNotExist, root_a, 3) \<and>
   MkdirAll ticks root_afb ''a/b'' 448 4 = (Some ErrExist, root_afb_touched, 5) \<and>
   erase_modified root_afb_touched = erase_modified root_afb \<and>
   Split ''a/b'' = [''a'', ''b''] \<and>
   walk root_afb [''a''] = Some dir_afb \<and>
   fmlookup (files dir_afb) ''b'' = Some file_b \<and>
   walk root_afb_touched [''a''] = Some dir_afb \<and>
   dir.info root_afb_touched = (dir.info root_afb)\<lparr>modified := ticks 4\<rparr> \<and>
   fmlookup (files root_at) (hd (Split ''t'')) \<noteq> None \<and>
   MkdirAll ticks root_at ''t'' 448 4 = (Some ErrExist, root_at, 4)"
proof -
  have w: "WriteFile ticks root_a ''x/y'' [1] 420 3 = (Some ErrNotExist, root_a, 3)"
    by (simp add: WriteFile.simps root_a_dir_a)
  have "MkdirAll ticks root_afb ''a/b'' 448 4 = (Some ErrExist, root_afb_touched, 5) \<longrightarrow>
      ErrExist = ErrExist \<and> erase_modified root_afb_touched = erase_modified root_afb \<and>
      (\<exists>n c. n < length (Split ''a/b'') \<and>
         walk root_afb (take n (Split ''a/b'')) = Some c \<and>
         fmlookup (files c) (Split ''a/b'' ! n) \<noteq> None \<and>
         5 = 4 + n \<and>
         (\<forall>qs. (\<forall>k < n. qs \<noteq> take k (Split ''a/b'')) \<longrightarrow>
            walk root_afb_touched qs = walk root_afb qs) \<and>
         (\<forall>k < n. \<exists>a a'. walk root_afb (take k (Split ''a/b'')) = Some a \<and>
            walk root_afb_touched (take k (Split ''a/b'')) = Some a' \<and>
            dir.info a' = (dir.info a)\<lparr>modified := ticks (4 + k)\<rparr>))"
    using failed_call [of ticks root_afb "''a/b''" "[1]" 448 4 ErrExist root_afb_touched 5]
    by - (elim conjE, assumption)
  with root_afb_mkdir have struct: "erase_modified root_afb_touched = erase_modified root_afb"
    by blast
  have f: "fmlookup (files root_at) (hd (Split ''t'')) \<noteq> None"
    by (simp add: root_at_eq)
  have "fmlookup (files root_at) (hd (Split ''t'')) \<noteq> None \<longrightarrow>
      MkdirAll ticks root_at ''t'' 448 4 = (Some ErrExist, root_at, 4)"
    using failed_call [of ticks root_at "''t''" "[1]" 448 4 ErrExist root_at 4]
    by - (elim conjE, assumption)
  with f have m: "MkdirAll ticks root_at ''t'' 448 4 = (Some ErrExist, root_at, 4)"
    by blast
  show ?thesis
    using w root_afb_mkdir struct root_afb_nodes f m by simp
qed

text \<open>
  Against claim C2 as stated: \<^verbatim>\<open>a/b\<close> is a file, and \<^verbatim>\<open>MkdirAll\<close> of \<^verbatim>\<open>a/b\<close> fails with the
  already-exists error at the node \<^verbatim>\<open>a\<close>, after it has set the modification time of the
  root.
\<close>

theorem failed_MkdirAll_counterexample:
  "MkdirAll ticks root_afb ''a/b'' 448 4 = (Some ErrExist, root_afb_touched, 5) \<and>
   FS_MkdirAll ticks \<lparr>dir = root_afb\<rparr> ''a/b'' 448 4 =
     (Some ErrExist, \<lparr>dir = root_afb_touched\<rparr>, 5) \<and>
   modified (dir.info root_afb) = 1001 \<and>
   modified (dir.info root_afb_touched) = 1004 \<and>
   root_afb_touched \<noteq> root_afb"
  using root_afb_mkdir
  by (simp add: FS_MkdirAll_def cleanse_def root_afb_def root_afb_touched_def)

subsection \<open>Modification times\<close>









subsection \<open>The invariant\<close>

text \<open>\<^verbatim>\<open>MkdirAll\<close> keeps the invariant: it refuses a segment that names a file.\<close>

lemma no_shared_name_iff:
  "no_shared_name f \<longleftrightarrow>
     fmdom (dirs f) |\<inter>| fmdom (files f) = {||} \<and>
     (\<forall>k c. fmlookup (dirs f) k = Some c \<longrightarrow> no_shared_name c)"
  by (cases f) (auto simp: fmpred_iff)

lemma MkdirAll_keeps_no_shared_name:
  "MkdirAll now f path perm t = (err, f', t') \<Longrightarrow> no_shared_name f \<Longrightarrow> no_shared_name f'"
proof (induction now f path perm t arbitrary: err f' t' rule: MkdirAll_steps)
  case (step now f path perm t)
  let ?p = "hd (Split path)"
  show ?case
  proof (cases "fmlookup (files f) ?p = None")
    case False
    with step.prems show ?thesis by (simp add: MkdirAll_file)
  next
    case nofile: True
    obtain f2 t2 where ens: "ensure_dir now f ?p perm t = (f2, t2)"
      by (cases "ensure_dir now f ?p perm t") auto
    have notin: "?p |\<notin>| fmdom (files f)"
      using nofile by (simp add: fmdom_notI)
    have f2: "no_shared_name f2"
      using ens step.prems(2) notin
      by (subst no_shared_name_iff, subst (asm) no_shared_name_iff)
        (auto simp: ensure_dir_def set_dir_def set_modified_def no_shared_name_iff [of "Dir _ fmempty fmempty"]
          split: if_splits)
    show ?thesis
    proof (cases "length (Split path) = 1")
      case True
      with step.prems(1) nofile ens f2 show ?thesis
        by (simp add: MkdirAll_last)
    next
      case many: False
      obtain e c' t3 where
        rec: "MkdirAll now (index_dirs f2 ?p) (Join (tl (Split path))) perm t2 = (e, c', t3)"
        by (cases "MkdirAll now (index_dirs f2 ?p) (Join (tl (Split path))) perm t2") auto
      from step.prems(1) have res: "f' = set_dir f2 ?p c'"
        by (simp add: MkdirAll_child [OF nofile many ens rec])
      have "no_shared_name (index_dirs f2 ?p)"
        using f2 ens
        by (subst (asm) no_shared_name_iff)
          (auto simp: index_dirs_def ensure_dir_def set_dir_def set_modified_def
            split: option.splits if_splits)
      then have "no_shared_name c'"
        by (rule step.IH [OF nofile many ens rec])
      moreover have "?p |\<notin>| fmdom (files f2)"
        using notin ensure_dir_files [OF ens] by simp
      ultimately show ?thesis
        using f2 res
        by (subst no_shared_name_iff, subst (asm) (2) no_shared_name_iff)
          (auto simp: set_dir_def)
    qed
  qed
qed

lemma New_root0: "fst (New ticks 0) = \<lparr>dir = root0\<rparr>"
  by (simp add: root0_def New_def)

lemma no_shared_name_root_a: "no_shared_name root_a"
  by (simp add: root_a_dir_a dir_a_def fmpred_iff)

lemma shared_name_root_clash: "\<not> no_shared_name root_clash"
  by (simp add: root_clash_def)

text \<open>
  Claim C1.  \<^verbatim>\<open>WriteFile\<close> does not keep the invariant: its last step stores the file
  entry without looking at the map of child directories.  After \<^verbatim>\<open>MkdirAll\<close> of \<^verbatim>\<open>a\<close> on
  the empty root the invariant holds; \<^verbatim>\<open>WriteFile\<close> of \<^verbatim>\<open>a\<close> then succeeds, and \<^verbatim>\<open>a\<close> is
  both a child directory and a file entry of the root.
\<close>

theorem WriteFile_over_directory:
  "FS_MkdirAll ticks (fst (New ticks 0)) ''a'' 448 1 = (None, \<lparr>dir = root_a\<rparr>, 3) \<and>
   no_shared_name root_a \<and>
   FS_WriteFile ticks \<lparr>dir = root_a\<rparr> ''a'' [1] 420 3 = (None, \<lparr>dir = root_clash\<rparr>, 4) \<and>
   fmlookup (dirs root_clash) ''a'' = Some dir_a \<and>
   fmlookup (files root_clash) ''a'' =
     Some \<lparr>file.info = \<lparr>name = ''a'', size_bytes = 1, modified = 1003, isDir = False,
                         mode = 420\<rparr>,
           content = [1], reader = None\<rparr> \<and>
   \<not> no_shared_name root_clash"
  using root_a_mkdir root_clash_write no_shared_name_root_a shared_name_root_clash
  by (simp add: FS_MkdirAll_def FS_WriteFile_def New_root0 cleanse_def root_clash_def)

subsection \<open>Opening a directory\<close>




end
